theory Spec2Isabelle
  imports Complex_Main "HOL-Library.Word"
begin

unbundle bit_operations_syntax

section \<open>Data model\<close>

text \<open>
  The parser of \<^verbatim>\<open>save-parser.js\<close> works on a \<^verbatim>\<open>Uint8Array\<close>: a finite sequence of
  bytes. Offsets are JavaScript numbers; the parser adds decoded (possibly negative)
  lengths to them, so they are integers that may leave the range of valid indexes.
  Reading a typed array at an index outside \<open>0 \<le> i < length\<close> gives \<^verbatim>\<open>undefined\<close>,
  modelled as \<open>None\<close>.
\<close>

type_synonym byte = "8 word"
type_synonym buffer = "byte list"

text \<open>
  A JavaScript string is modelled as the sequence of its Unicode scalar values. The
  string literals of the source are ASCII; \<open>js\<close> turns an ASCII literal into such a
  sequence.
\<close>

type_synonym jsstring = "nat list"

definition js :: "string \<Rightarrow> jsstring" where
  "js s = map of_char s"

definition byteAt :: "buffer \<Rightarrow> int \<Rightarrow> byte option" where
  "byteAt data i = (if 0 \<le> i \<and> i < int (length data) then Some (data ! nat i) else None)"

text \<open>
  \<^verbatim>\<open>arr[i]\<close> on an ordinary array whose elements are bytes or \<^verbatim>\<open>undefined\<close>: outside
  the array it is \<^verbatim>\<open>undefined\<close>.
\<close>

definition elemAt :: "byte option list \<Rightarrow> nat \<Rightarrow> byte option" where
  "elemAt xs i = (if i < length xs then xs ! i else None)"

text \<open>The object \<^verbatim>\<open>{ value, offset }\<close> returned by the read functions.\<close>

record 'a parsed =
  pvalue :: 'a
  poffset :: int

text \<open>
  Exceptions of the source: the \<^verbatim>\<open>RangeError\<close> of a \<^verbatim>\<open>DataView\<close> getter whose
  bytes are not all inside the buffer, and the \<^verbatim>\<open>Error\<close> thrown by \<^verbatim>\<open>readPrimitive\<close>
  for a primitive type code it does not know (the code may be \<^verbatim>\<open>undefined\<close>).
\<close>

datatype error = RangeError | UnknownPrimitiveType "byte option"

section \<open>Core binary primitives\<close>

subsection \<open>parse7BitInt\<close>

text \<open>
  \<^verbatim>\<open>result |= (b & 0x7F) << shift\<close> works on 32-bit integers: the shift count is taken
  modulo 32 and the result is a signed 32-bit value. A read past the end gives
  \<^verbatim>\<open>undefined\<close>, for which both \<^verbatim>\<open>b & 0x7F\<close> and \<^verbatim>\<open>b & 0x80\<close> are 0: the loop stops
  there with the bits gathered so far.
\<close>

function parse7BitInt_loop :: "buffer \<Rightarrow> int \<Rightarrow> 32 word \<Rightarrow> nat \<Rightarrow> int parsed" where
  "parse7BitInt_loop data offset result shift =
     (case byteAt data offset of
        None \<Rightarrow> \<lparr>pvalue = sint result, poffset = offset + 1\<rparr>
      | Some b \<Rightarrow>
          (let result' = result OR push_bit (shift mod 32) (ucast (b AND 0x7F))
           in if b AND 0x80 \<noteq> 0
              then parse7BitInt_loop data (offset + 1) result' (shift + 7)
              else \<lparr>pvalue = sint result', poffset = offset + 1\<rparr>))"
  by pat_completeness auto
termination
  by (relation "measure (\<lambda>(data, offset, result, shift). nat (int (length data) - offset))")
     (auto simp: byteAt_def split: if_splits)

declare parse7BitInt_loop.simps [simp del]

definition parse7BitInt :: "buffer \<Rightarrow> int \<Rightarrow> int parsed" where
  "parse7BitInt data offset = parse7BitInt_loop data offset 0 0"

subsection \<open>Platform functions: subarray, TextDecoder, TextEncoder\<close>

text \<open>
  \<^verbatim>\<open>TypedArray.prototype.subarray(begin, end)\<close>: a negative index counts from the end,
  both indexes are clamped to the array, and an end before the begin gives the empty
  array.
\<close>

definition subarray :: "buffer \<Rightarrow> int \<Rightarrow> int \<Rightarrow> buffer" where
  "subarray data b e =
     (let len = int (length data);
          beginIndex = (if b < 0 then max (len + b) 0 else min b len);
          endIndex = (if e < 0 then max (len + e) 0 else min e len);
          newLength = max (endIndex - beginIndex) 0
      in take (nat newLength) (drop (nat beginIndex) data))"

text \<open>
  \<^verbatim>\<open>new TextDecoder().decode(bytes)\<close> is the UTF-8 decoder of the Encoding Standard in
  replacement mode: it never throws, an ill-formed sequence gives U+FFFD, and a byte
  that cannot continue a sequence is read again as the start of the next one. The
  state is the code point under construction, the bytes needed and seen, and the
  bounds for the next continuation byte.
\<close>

function utf8_decode :: "nat \<Rightarrow> nat \<Rightarrow> nat \<Rightarrow> nat \<Rightarrow> nat \<Rightarrow> buffer \<Rightarrow> jsstring" where
  "utf8_decode cp needed seen lower upper [] = (if needed \<noteq> 0 then [0xFFFD] else [])"
| "utf8_decode cp needed seen lower upper (w # ws) =
     (let b = unat w in
      if needed = 0 then
        (if b \<le> 0x7F then b # utf8_decode 0 0 0 0x80 0xBF ws
         else if 0xC2 \<le> b \<and> b \<le> 0xDF then utf8_decode (b mod 0x20) 1 0 0x80 0xBF ws
         else if 0xE0 \<le> b \<and> b \<le> 0xEF then
           utf8_decode (b mod 0x10) 2 0
             (if b = 0xE0 then 0xA0 else 0x80) (if b = 0xED then 0x9F else 0xBF) ws
         else if 0xF0 \<le> b \<and> b \<le> 0xF4 then
           utf8_decode (b mod 8) 3 0
             (if b = 0xF0 then 0x90 else 0x80) (if b = 0xF4 then 0x8F else 0xBF) ws
         else 0xFFFD # utf8_decode 0 0 0 0x80 0xBF ws)
      else if \<not> (lower \<le> b \<and> b \<le> upper) then
        0xFFFD # utf8_decode 0 0 0 0x80 0xBF (w # ws)
      else if seen + 1 \<noteq> needed then
        utf8_decode (cp * 64 + b mod 64) needed (seen + 1) 0x80 0xBF ws
      else (cp * 64 + b mod 64) # utf8_decode 0 0 0 0x80 0xBF ws)"
  by pat_completeness auto
termination
  by (relation "measure (\<lambda>(cp, needed, seen, lower, upper, bs).
        2 * length bs + (if needed = 0 then 0 else 1))") auto

declare utf8_decode.simps [simp del]

text \<open>A leading byte order mark U+FEFF is dropped (\<^verbatim>\<open>ignoreBOM\<close> is false).\<close>

definition TextDecoder_decode :: "buffer \<Rightarrow> jsstring" where
  "TextDecoder_decode bs =
     (case utf8_decode 0 0 0 0x80 0xBF bs of
        [] \<Rightarrow> []
      | c # cs \<Rightarrow> if c = 0xFEFF then cs else c # cs)"

text \<open>\<^verbatim>\<open>new TextEncoder().encode(s)\<close>: the UTF-8 bytes of each scalar value.\<close>

definition utf8_encode_cp :: "nat \<Rightarrow> buffer" where
  "utf8_encode_cp c =
     (if c < 0x80 then [of_nat c]
      else if c < 0x800 then [of_nat (0xC0 + c div 64), of_nat (0x80 + c mod 64)]
      else if c < 0x10000 then
        [of_nat (0xE0 + c div 4096), of_nat (0x80 + (c div 64) mod 64), of_nat (0x80 + c mod 64)]
      else
        [of_nat (0xF0 + c div 262144), of_nat (0x80 + (c div 4096) mod 64),
         of_nat (0x80 + (c div 64) mod 64), of_nat (0x80 + c mod 64)])"

definition TextEncoder_encode :: "jsstring \<Rightarrow> buffer" where
  "TextEncoder_encode s = concat (map utf8_encode_cp s)"

subsection \<open>parseBfString\<close>

definition parseBfString :: "buffer \<Rightarrow> int \<Rightarrow> jsstring parsed" where
  "parseBfString data offset =
     (let len = parse7BitInt data offset;
          offset' = poffset len;
          str = TextDecoder_decode (subarray data offset' (offset' + pvalue len))
      in \<lparr>pvalue = str, poffset = offset' + pvalue len\<rparr>)"

subsection \<open>DataView getters\<close>

text \<open>
  A \<^verbatim>\<open>DataView\<close> getter over the whole array throws a \<^verbatim>\<open>RangeError\<close> unless all the
  bytes it reads are inside the buffer. All reads of the source are little-endian.
\<close>

definition readLE :: "buffer \<Rightarrow> int \<Rightarrow> nat \<Rightarrow> error + nat" where
  "readLE data off n =
     (if 0 \<le> off \<and> off + int n \<le> int (length data)
      then Inr (foldr (\<lambda>b acc. unat b + 256 * acc) (take n (drop (nat off) data)) 0)
      else Inl RangeError)"

definition toSigned :: "nat \<Rightarrow> nat \<Rightarrow> int" where
  "toSigned bits n = (if n < 2 ^ (bits - 1) then int n else int n - 2 ^ bits)"

definition getUint32 :: "buffer \<Rightarrow> int \<Rightarrow> error + nat" where
  "getUint32 data off = readLE data off 4"

definition getInt16 :: "buffer \<Rightarrow> int \<Rightarrow> error + int" where
  "getInt16 data off = map_sum id (toSigned 16) (readLE data off 2)"

definition getInt32 :: "buffer \<Rightarrow> int \<Rightarrow> error + int" where
  "getInt32 data off = map_sum id (toSigned 32) (readLE data off 4)"

definition getBigInt64 :: "buffer \<Rightarrow> int \<Rightarrow> error + int" where
  "getBigInt64 data off = map_sum id (toSigned 64) (readLE data off 8)"

text \<open>
  Floating-point values are kept as their IEEE 754 bit patterns (little-endian bytes read
  into a number): the arithmetic of binary32 and binary64 is not modelled.
\<close>

definition getFloat32 :: "buffer \<Rightarrow> int \<Rightarrow> error + nat" where
  "getFloat32 data off = readLE data off 4"

definition getFloat64 :: "buffer \<Rightarrow> int \<Rightarrow> error + nat" where
  "getFloat64 data off = readLE data off 8"

subsection \<open>Constants\<close>

definition TAG_PRIMITIVE :: byte where "TAG_PRIMITIVE = 0"
definition TAG_STRING :: byte where "TAG_STRING = 1"
definition TAG_SYSTEM_CLASS :: byte where "TAG_SYSTEM_CLASS = 3"
definition TAG_CLASS :: byte where "TAG_CLASS = 4"
definition TAG_PRIMITIVE_ARRAY :: byte where "TAG_PRIMITIVE_ARRAY = 7"

definition PRIM_BOOLEAN :: byte where "PRIM_BOOLEAN = 1"
definition PRIM_BYTE :: byte where "PRIM_BYTE = 2"
definition PRIM_INT16 :: byte where "PRIM_INT16 = 7"
definition PRIM_INT32 :: byte where "PRIM_INT32 = 8"
definition PRIM_INT64 :: byte where "PRIM_INT64 = 9"
definition PRIM_SINGLE :: byte where "PRIM_SINGLE = 11"
definition PRIM_DOUBLE :: byte where "PRIM_DOUBLE = 6"

subsection \<open>readPrimitive\<close>

text \<open>
  The values \<^verbatim>\<open>readPrimitive\<close> returns. A byte read outside the buffer is
  \<^verbatim>\<open>undefined\<close>; \<^verbatim>\<open>undefined !== 0\<close> is true, so a boolean read outside the buffer is
  \<^verbatim>\<open>true\<close>. \<open>JSBigNumber v\<close> is \<^verbatim>\<open>Number(v)\<close> for the 64-bit integer \<open>v\<close> (the nearest
  binary64; exact while \<open>\<bar>v\<bar> \<le> 2 ^ 53\<close>).
\<close>

datatype js_value =
    JSUndefined
  | JSBoolean bool
  | JSNumber int
  | JSBigNumber int
  | JSFloat32 nat
  | JSFloat64 nat

definition readPrimitive :: "buffer \<Rightarrow> int \<Rightarrow> byte option \<Rightarrow> error + js_value parsed" where
  "readPrimitive data offset primType =
     (if primType = Some PRIM_BOOLEAN then
        Inr \<lparr>pvalue = JSBoolean (byteAt data offset \<noteq> Some 0), poffset = offset + 1\<rparr>
      else if primType = Some PRIM_BYTE then
        Inr \<lparr>pvalue = (case byteAt data offset of None \<Rightarrow> JSUndefined
                                                | Some b \<Rightarrow> JSNumber (uint b)),
             poffset = offset + 1\<rparr>
      else if primType = Some PRIM_INT16 then
        map_sum id (\<lambda>v. \<lparr>pvalue = JSNumber v, poffset = offset + 2\<rparr>) (getInt16 data offset)
      else if primType = Some PRIM_INT32 then
        map_sum id (\<lambda>v. \<lparr>pvalue = JSNumber v, poffset = offset + 4\<rparr>) (getInt32 data offset)
      else if primType = Some PRIM_INT64 then
        map_sum id (\<lambda>v. \<lparr>pvalue = JSBigNumber v, poffset = offset + 8\<rparr>) (getBigInt64 data offset)
      else if primType = Some PRIM_SINGLE then
        map_sum id (\<lambda>v. \<lparr>pvalue = JSFloat32 v, poffset = offset + 4\<rparr>) (getFloat32 data offset)
      else if primType = Some PRIM_DOUBLE then
        map_sum id (\<lambda>v. \<lparr>pvalue = JSFloat64 v, poffset = offset + 8\<rparr>) (getFloat64 data offset)
      else Inl (UnknownPrimitiveType primType))"

section \<open>Byte search helper\<close>

text \<open>
  The inner loop of \<^verbatim>\<open>findBytes\<close>: \<^verbatim>\<open>data[i + j] !== needle[j]\<close> for some \<open>j\<close> leaves
  the candidate \<open>i\<close>.
\<close>

fun matchAt :: "buffer \<Rightarrow> buffer \<Rightarrow> int \<Rightarrow> bool" where
  "matchAt data [] i = True"
| "matchAt data (n # ns) i = (if byteAt data i = Some n then matchAt data ns (i + 1) else False)"

text \<open>
  \<^verbatim>\<open>findBytes\<close> returns the first index \<open>i \<ge> start\<close> with
  \<open>i \<le> data.length - needle.length\<close> at which the needle stands, or \<open>-1\<close>.
\<close>

function findBytes :: "buffer \<Rightarrow> buffer \<Rightarrow> int \<Rightarrow> int" where
  "findBytes data needle i =
     (if i \<le> int (length data) - int (length needle)
      then (if matchAt data needle i then i else findBytes data needle (i + 1))
      else - 1)"
  by pat_completeness auto
termination
  by (relation "measure (\<lambda>(data, needle, i). nat (int (length data) - int (length needle) - i + 1))")
     auto

declare findBytes.simps [simp del]

lemma findBytes_bounds:
  "findBytes data needle i = p \<Longrightarrow> p \<noteq> - 1 \<Longrightarrow>
   i \<le> p \<and> p + int (length needle) \<le> int (length data)"
proof (induction data needle i rule: findBytes.induct)
  case (1 data needle i)
  show ?case
  proof (cases "i \<le> int (length data) - int (length needle)")
    case False
    with "1.prems" show ?thesis
      by (subst (asm) findBytes.simps) simp
  next
    case True
    show ?thesis
    proof (cases "matchAt data needle i")
      case m: True
      with True "1.prems" have "p = i"
        by (subst (asm) findBytes.simps) simp
      with True show ?thesis by linarith
    next
      case m: False
      with True "1.prems" have "findBytes data needle (i + 1) = p"
        by (subst (asm) findBytes.simps) simp
      with "1.IH" [OF True m] "1.prems" show ?thesis by simp
    qed
  qed
qed

section \<open>Class finder\<close>

text \<open>
  The object returned by \<^verbatim>\<open>findClassDefinition\<close>. A type tag or primitive type read
  outside the buffer is \<^verbatim>\<open>undefined\<close> (\<open>None\<close>).
\<close>

record classDef =
  className :: jsstring
  memberCount :: nat
  memberNames :: "jsstring list"
  typeTags :: "byte option list"
  primTypes :: "byte option list"
  dataOffset :: int
  objectId :: nat

text \<open>The loop reading all member names.\<close>

function readMemberNames :: "buffer \<Rightarrow> nat \<Rightarrow> nat \<Rightarrow> jsstring list \<Rightarrow> int \<Rightarrow> jsstring list \<times> int" where
  "readMemberNames data mc i members offset =
     (if i < mc
      then (let name = parseBfString data offset
            in readMemberNames data mc (i + 1) (members @ [pvalue name]) (poffset name))
      else (members, offset))"
  by pat_completeness auto
termination
  by (relation "measure (\<lambda>(data, mc, i, members, offset). mc - i)") auto

declare readMemberNames.simps [simp del]

text \<open>The loop reading one type tag byte per member.\<close>

function readTypeTags :: "buffer \<Rightarrow> nat \<Rightarrow> nat \<Rightarrow> byte option list \<Rightarrow> int \<Rightarrow> byte option list \<times> int" where
  "readTypeTags data mc i tags offset =
     (if i < mc
      then readTypeTags data mc (i + 1) (tags @ [byteAt data offset]) (offset + 1)
      else (tags, offset))"
  by pat_completeness auto
termination
  by (relation "measure (\<lambda>(data, mc, i, tags, offset). mc - i)") auto

declare readTypeTags.simps [simp del]

text \<open>
  The loop reading the additional type information of each tag. \<open>prims\<close> is the array
  \<^verbatim>\<open>new Array(mc).fill(0)\<close>, of length \<open>mc\<close>, so that every assignment \<^verbatim>\<open>primTypes[i] = ...\<close>
  with \<open>i < mc\<close> replaces an element.
\<close>

function readTypeInfo ::
  "buffer \<Rightarrow> nat \<Rightarrow> byte option list \<Rightarrow> nat \<Rightarrow> byte option list \<Rightarrow> int \<Rightarrow> byte option list \<times> int" where
  "readTypeInfo data mc tags i prims offset =
     (if i < mc then
        (let tag = elemAt tags i in
         if tag = Some TAG_PRIMITIVE then
           readTypeInfo data mc tags (i + 1) (prims[i := byteAt data offset]) (offset + 1)
         else if tag = Some TAG_CLASS then
           readTypeInfo data mc tags (i + 1) prims (poffset (parseBfString data offset) + 4)
         else if tag = Some TAG_SYSTEM_CLASS then
           readTypeInfo data mc tags (i + 1) prims (poffset (parseBfString data offset))
         else if tag = Some TAG_PRIMITIVE_ARRAY then
           readTypeInfo data mc tags (i + 1) (prims[i := byteAt data offset]) (offset + 1)
         else readTypeInfo data mc tags (i + 1) prims offset)
      else (prims, offset))"
  by pat_completeness auto
termination
  by (relation "measure (\<lambda>(data, mc, tags, i, prims, offset). mc - i)") auto

declare readTypeInfo.simps [simp del]

text \<open>\<^verbatim>\<open>fullStr.endsWith(className)\<close>.\<close>

definition endsWith :: "jsstring \<Rightarrow> jsstring \<Rightarrow> bool" where
  "endsWith s t = (length t \<le> length s \<and> drop (length s - length t) s = t)"

text \<open>
  The backward walk for the object id, from \<open>pos - 1\<close> down to \<open>max (pos - 50) 0\<close>. The
  \<^verbatim>\<open>RangeError\<close> of \<^verbatim>\<open>getUint32(testPos - 4)\<close> is caught inside the loop, which then goes
  on with \<open>testPos - 1\<close>. When the loop ends without a match the object id stays 0.
\<close>

function findObjectId :: "buffer \<Rightarrow> jsstring \<Rightarrow> int \<Rightarrow> int \<Rightarrow> nat" where
  "findObjectId data name testPos limit =
     (if testPos \<ge> limit then
        (let testLen = parse7BitInt data testPos;
             e = poffset testLen
         in if e + pvalue testLen \<le> int (length data)
               \<and> endsWith (TextDecoder_decode (subarray data e (e + pvalue testLen))) name
            then (case getUint32 data (testPos - 4) of
                    Inr v \<Rightarrow> v
                  | Inl err \<Rightarrow> findObjectId data name (testPos - 1) limit)
            else findObjectId data name (testPos - 1) limit)
      else 0)"
  by pat_completeness auto
termination
  by (relation "measure (\<lambda>(data, name, testPos, limit). nat (testPos - limit + 1))") auto

declare findObjectId.simps [simp del]

text \<open>
  The body of the scan loop at one candidate position \<open>pos\<close> (an occurrence of the class
  name bytes). \<open>Inl e\<close>: an exception, caught by the loop; \<open>Inr None\<close>: the candidate is
  left by \<^verbatim>\<open>continue\<close>; \<open>Inr (Some cdef)\<close>: the definition is returned. The only
  statement of the body that can throw outside the inner \<^verbatim>\<open>try\<close> is the read of the
  member count. \<^verbatim>\<open>expectedFields[0]\<close> of an empty list is \<^verbatim>\<open>undefined\<close>, which no string
  equals.
\<close>

definition parseCandidate :: "buffer \<Rightarrow> jsstring \<Rightarrow> jsstring list \<Rightarrow> int \<Rightarrow> error + classDef option" where
  "parseCandidate data name expectedFields pos =
     (let after = pos + int (length (TextEncoder_encode name)) in
      case getUint32 data after of
        Inl e \<Rightarrow> Inl e
      | Inr mc \<Rightarrow>
          if mc \<noteq> length expectedFields then Inr None
          else
            let firstName = parseBfString data (after + 4) in
            if (case expectedFields of [] \<Rightarrow> True | f # fs \<Rightarrow> pvalue firstName \<noteq> f) then Inr None
            else
              let (members, offset1) = readMemberNames data mc 0 [] (after + 4);
                  (tags, offset2) = readTypeTags data mc 0 [] offset1;
                  (prims, offset3) = readTypeInfo data mc tags 0 (replicate mc (Some 0)) offset2;
                  offset4 = offset3 + 4;
                  oid = findObjectId data name (pos - 1) (max (pos - 50) 0)
              in Inr (Some \<lparr>className = name, memberCount = mc, memberNames = members,
                            typeTags = tags, primTypes = prims, dataOffset = offset4,
                            objectId = oid\<rparr>))"

text \<open>
  The scan loop. Beside the definition it returns the candidate position at which the
  definition was accepted (the final value of \<^verbatim>\<open>pos\<close>), so that theorems can name the
  accepted candidate; \<open>findClassDefinition\<close> drops it.
\<close>

function findClassDefinition_scan ::
  "buffer \<Rightarrow> jsstring \<Rightarrow> jsstring list \<Rightarrow> int \<Rightarrow> (int \<times> classDef) option" where
  "findClassDefinition_scan data name expectedFields pos =
     (let p = findBytes data (TextEncoder_encode name) pos in
      if p = - 1 then None
      else
        (case parseCandidate data name expectedFields p of
           Inr (Some cdef) \<Rightarrow> Some (p, cdef)
         | Inr None \<Rightarrow> findClassDefinition_scan data name expectedFields (p + 1)
         | Inl e \<Rightarrow> findClassDefinition_scan data name expectedFields (p + 1)))"
  by pat_completeness auto
termination
proof (relation "measure (\<lambda>(data, name, expectedFields, pos). nat (int (length data) + 1 - pos))",
    goal_cases)
  case 1
  show ?case by simp
next
  case (2 data name expectedFields pos p x)
  then show ?case
    using findBytes_bounds [of data "TextEncoder_encode name" pos p] by simp
next
  case (3 data name expectedFields pos p x)
  then show ?case
    using findBytes_bounds [of data "TextEncoder_encode name" pos p] by simp
qed

declare findClassDefinition_scan.simps [simp del]

definition findClassDefinition :: "buffer \<Rightarrow> jsstring \<Rightarrow> jsstring list \<Rightarrow> int \<Rightarrow> classDef option" where
  "findClassDefinition data name expectedFields start =
     map_option snd (findClassDefinition_scan data name expectedFields start)"

section \<open>Back-reference resolver\<close>

text \<open>
  \<^verbatim>\<open>TypedArray.prototype.indexOf(value, fromIndex)\<close>: \<open>-1\<close> on an empty array; a negative
  \<^verbatim>\<open>fromIndex\<close> counts from the end and is clamped to 0; the result is the first index
  from there that holds the value, or \<open>-1\<close>.
\<close>

function indexOf_from :: "buffer \<Rightarrow> byte \<Rightarrow> int \<Rightarrow> int" where
  "indexOf_from data v k =
     (if k < int (length data)
      then (if byteAt data k = Some v then k else indexOf_from data v (k + 1))
      else - 1)"
  by pat_completeness auto
termination
  by (relation "measure (\<lambda>(data, v, k). nat (int (length data) - k))") auto

declare indexOf_from.simps [simp del]

definition indexOf :: "buffer \<Rightarrow> byte \<Rightarrow> int \<Rightarrow> int" where
  "indexOf data v fromIndex =
     (let len = int (length data) in
      if len = 0 then - 1
      else indexOf_from data v (if fromIndex \<ge> 0 then fromIndex else max (len + fromIndex) 0))"

lemma indexOf_from_bounds:
  "0 \<le> k \<Longrightarrow> indexOf_from data v k = p \<Longrightarrow> p \<noteq> - 1 \<Longrightarrow> k \<le> p \<and> p < int (length data)"
proof (induction data v k rule: indexOf_from.induct)
  case (1 data v k)
  show ?case
  proof (cases "k < int (length data)")
    case False
    with "1.prems" show ?thesis
      by (subst (asm) indexOf_from.simps) simp
  next
    case True
    show ?thesis
    proof (cases "byteAt data k = Some v")
      case m: True
      with True "1.prems" have "p = k"
        by (subst (asm) indexOf_from.simps) simp
      with True show ?thesis by simp
    next
      case m: False
      with True "1.prems" have "indexOf_from data v (k + 1) = p"
        by (subst (asm) indexOf_from.simps) simp
      with "1.IH" [OF True m] "1.prems" show ?thesis by simp
    qed
  qed
qed

lemma indexOf_bounds:
  assumes "indexOf data v fromIndex = p" "p \<noteq> - 1"
  shows "0 \<le> p \<and> fromIndex \<le> p \<and> p < int (length data)"
proof -
  let ?k = "if fromIndex \<ge> 0 then fromIndex else max (int (length data) + fromIndex) 0"
  from assms have "indexOf_from data v ?k = p"
    by (auto simp: indexOf_def Let_def split: if_splits)
  moreover have "0 \<le> ?k" by simp
  ultimately have "?k \<le> p \<and> p < int (length data)"
    using assms(2) indexOf_from_bounds by blast
  then show ?thesis by (auto split: if_splits)
qed

text \<open>
  \<^verbatim>\<open>findClassIdInstance\<close>: the loop condition \<open>pos < data.length - 9\<close> is tested on the
  position from which the next search for the marker byte \<^verbatim>\<open>0x01\<close> starts; the marker
  found is examined when \<open>pos + 9 \<le> data.length\<close>. Under that guard, with \<open>pos \<ge> 0\<close>, the
  read \<^verbatim>\<open>getUint32(pos + 5)\<close> is inside the buffer and cannot throw. The result is an offset
  or \<^verbatim>\<open>null\<close>.
\<close>

function findClassIdInstance :: "buffer \<Rightarrow> nat \<Rightarrow> int \<Rightarrow> int option" where
  "findClassIdInstance data metadataId pos =
     (if pos < int (length data) - 9 then
        (let p = indexOf data 0x01 pos in
         if p = - 1 then None
         else if p + 9 \<le> int (length data) \<and> getUint32 data (p + 5) = Inr metadataId
              then Some (p + 9)
              else findClassIdInstance data metadataId (p + 1))
      else None)"
  by pat_completeness auto
termination
proof (relation "measure (\<lambda>(data, metadataId, pos). nat (int (length data) - pos))", goal_cases)
  case 1
  show ?case by simp
next
  case (2 data metadataId pos p)
  then show ?case
    using indexOf_bounds [of data "0x01" pos p] by simp
qed

declare findClassIdInstance.simps [simp del]

lemma findClassIdInstance_bounds:
  "findClassIdInstance data metadataId pos = Some off \<Longrightarrow> pos < off \<and> off \<le> int (length data)"
proof (induction data metadataId pos rule: findClassIdInstance.induct)
  case (1 data metadataId pos)
  let ?p = "indexOf data 0x01 pos"
  from "1.prems" have lt: "pos < int (length data) - 9" and p: "?p \<noteq> - 1"
    by (subst (asm) findClassIdInstance.simps, auto simp: Let_def split: if_splits)+
  from indexOf_bounds [OF refl p] have b: "0 \<le> ?p" "pos \<le> ?p" "?p < int (length data)"
    by simp_all
  show ?case
  proof (cases "?p + 9 \<le> int (length data) \<and> getUint32 data (?p + 5) = Inr metadataId")
    case True
    with lt p "1.prems" have "off = ?p + 9"
      by (subst (asm) findClassIdInstance.simps) (auto simp: Let_def)
    with True b show ?thesis by simp
  next
    case False
    with lt p "1.prems" have "findClassIdInstance data metadataId (?p + 1) = Some off"
      by (subst (asm) findClassIdInstance.simps) (auto simp: Let_def)
    with "1.IH" [OF lt refl p False] b show ?thesis by simp
  qed
qed

text \<open>\<^verbatim>\<open>findAllClassIdInstances\<close>: the lookup is repeated from each offset it returns.\<close>

function findAllClassIdInstances_loop :: "buffer \<Rightarrow> nat \<Rightarrow> int \<Rightarrow> int list \<Rightarrow> int list" where
  "findAllClassIdInstances_loop data metadataId pos results =
     (case findClassIdInstance data metadataId pos of
        None \<Rightarrow> results
      | Some offset \<Rightarrow> findAllClassIdInstances_loop data metadataId offset (results @ [offset]))"
  by pat_completeness auto
termination
  by (relation "measure (\<lambda>(data, metadataId, pos, results). nat (int (length data) - pos))")
     (auto dest!: findClassIdInstance_bounds)

declare findAllClassIdInstances_loop.simps [simp del]

definition findAllClassIdInstances :: "buffer \<Rightarrow> nat \<Rightarrow> int \<Rightarrow> int list" where
  "findAllClassIdInstances data metadataId start =
     findAllClassIdInstances_loop data metadataId start []"

section \<open>Strings and objects of the results\<close>

text \<open>
  \<^verbatim>\<open>String(n)\<close> of a whole number of magnitude below \<open>2\<^sup>5\<^sup>3\<close> (also in a template
  literal): its decimal digits, with a minus sign for a negative number. Every whole
  number of that range is a binary64 number, and it is the shortest decimal that reads
  back as itself. \<open>String_int\<close> is applied to Int32 values.
\<close>

function decimal :: "nat \<Rightarrow> jsstring" where
  "decimal n = (if n < 10 then [48 + n] else decimal (n div 10) @ [48 + n mod 10])"
  by pat_completeness auto
termination
  by (relation "measure id") auto

declare decimal.simps [simp del]

definition String_int :: "int \<Rightarrow> jsstring" where
  "String_int i = (if i < 0 then 45 # decimal (nat (- i)) else decimal (nat i))"

text \<open>\<^verbatim>\<open>s.padStart(n, c)\<close> for a fill string of one character.\<close>

definition padStart :: "jsstring \<Rightarrow> nat \<Rightarrow> nat \<Rightarrow> jsstring" where
  "padStart s n c = (if n \<le> length s then s else replicate (n - length s) c @ s)"

text \<open>
  An object built by assignments \<^verbatim>\<open>obj[key] = value\<close>, as the list of its own properties
  in the order of their first assignment. An assignment to an existing key replaces its
  value in place. Assigning a primitive value to the key \<^verbatim>\<open>__proto__\<close> of an object
  literal does nothing.
\<close>

type_synonym jsobject = "(jsstring \<times> js_value) list"

fun obj_update :: "jsobject \<Rightarrow> jsstring \<Rightarrow> js_value \<Rightarrow> jsobject" where
  "obj_update [] k v = [(k, v)]"
| "obj_update (p # ps) k v = (if fst p = k then (k, v) # ps else p # obj_update ps k v)"

definition obj_set :: "jsobject \<Rightarrow> jsstring \<Rightarrow> js_value \<Rightarrow> jsobject" where
  "obj_set obj k v = (if k = js ''__proto__'' then obj else obj_update obj k v)"

text \<open>
  The truth value of \<^verbatim>\<open>w.key\<close> as a filter condition: a missing property is
  \<^verbatim>\<open>undefined\<close>; \<^verbatim>\<open>undefined\<close>, \<^verbatim>\<open>false\<close>, zero and NaN are falsy. For a floating-point
  value the test reads the bit pattern: all bits but the sign zero is a zero, and an
  all-ones exponent with a non-zero fraction is a NaN.
\<close>

fun truthy :: "js_value \<Rightarrow> bool" where
  "truthy JSUndefined = False"
| "truthy (JSBoolean b) = b"
| "truthy (JSNumber n) = (n \<noteq> 0)"
| "truthy (JSBigNumber n) = (n \<noteq> 0)"
| "truthy (JSFloat32 w) = (w mod 2 ^ 31 \<noteq> 0 \<and> \<not> w mod 2 ^ 31 > 0x7F800000)"
| "truthy (JSFloat64 w) = (w mod 2 ^ 63 \<noteq> 0 \<and> \<not> w mod 2 ^ 63 > 0x7FF0000000000000)"

definition obj_truthy :: "jsobject \<Rightarrow> jsstring \<Rightarrow> bool" where
  "obj_truthy obj k = (case map_of obj k of None \<Rightarrow> False | Some v \<Rightarrow> truthy v)"

section \<open>Helpers\<close>

subsection \<open>JavaScript numbers\<close>

text \<open>
  The argument of \<^verbatim>\<open>formatDuration\<close> is a JavaScript number, that is a binary64 value: a
  finite number, NaN, or an infinity. A finite number is modelled by its value, a real;
  the two zeros are one value (both print as \<^verbatim>\<open>0\<close>, and \<^verbatim>\<open>formatDuration\<close> never divides by
  a zero). The type parameter is \<open>real\<close> for a number in general and \<open>int\<close> for a number
  known to be whole: the result of \<^verbatim>\<open>Math.floor\<close> and the remainder of a whole number by
  a whole number.
\<close>

datatype 'a js_number = Finite 'a | NaN | PosInfinity | NegInfinity

text \<open>
  The binary64 result of an operation is its exact result rounded to the nearest
  binary64 number, a tie going to the even significand. \<open>bitLength n\<close> is the number of
  binary digits of \<open>n\<close>, and \<open>exponent x\<close>, for \<open>0 < x\<close>, the integer \<open>e\<close> with
  \<open>2\<^sup>e \<le> x < 2\<^sup>e\<^sup>+\<^sup>1\<close>. A number of exponent \<open>e\<close> has 53 significant bits: it is a multiple
  of \<open>2\<^sup>e\<^sup>-\<^sup>5\<^sup>2\<close>; below \<open>2\<^sup>-\<^sup>1\<^sup>0\<^sup>2\<^sup>2\<close> the numbers are the multiples of \<open>2\<^sup>-\<^sup>1\<^sup>0\<^sup>7\<^sup>4\<close>. A result
  that rounds to \<open>2\<^sup>1\<^sup>0\<^sup>2\<^sup>4\<close> or more is an infinity.
\<close>

function bitLength :: "nat \<Rightarrow> int" where
  "bitLength n = (if n = 0 then 0 else bitLength (n div 2) + 1)"
  by pat_completeness auto
termination
  by (relation "measure id") auto

declare bitLength.simps [simp del]

definition exponent :: "real \<Rightarrow> int" where
  "exponent x = (if 1 \<le> x then bitLength (nat \<lfloor>x\<rfloor>) - 1
                 else - bitLength (nat (\<lceil>1 / x\<rceil> - 1)))"

definition pow2 :: "int \<Rightarrow> real" where
  "pow2 e = (if 0 \<le> e then 2 ^ nat e else 1 / 2 ^ nat (- e))"

definition round_half_even :: "real \<Rightarrow> int" where
  "round_half_even x =
     (let f = \<lfloor>x\<rfloor>; d = x - of_int f
      in if d < 1 / 2 then f else if 1 / 2 < d then f + 1 else if even f then f else f + 1)"

definition binary64 :: "real \<Rightarrow> real js_number" where
  "binary64 x =
     (if x = 0 then Finite 0
      else let a = \<bar>x\<bar>;
               e = max (exponent a) (- 1022);
               u = pow2 (e - 52);
               r = of_int (round_half_even (a / u)) * u
           in if pow2 1024 \<le> r then (if 0 < x then PosInfinity else NegInfinity)
              else Finite (sgn x * r))"

text \<open>
  \<^verbatim>\<open>Math.floor(x)\<close>; \<^verbatim>\<open>a / d\<close> and \<^verbatim>\<open>a % d\<close> for a whole number \<open>a\<close> and a positive whole
  constant \<open>d\<close> (3600 and 60 in the source). The floor of a binary64 number is a binary64
  number. The quotient is rounded. The remainder has the sign of \<open>a\<close> and is exact; the
  remainder of an infinity is NaN.
\<close>

fun Math_floor :: "real js_number \<Rightarrow> int js_number" where
  "Math_floor (Finite x) = Finite \<lfloor>x\<rfloor>"
| "Math_floor NaN = NaN"
| "Math_floor PosInfinity = PosInfinity"
| "Math_floor NegInfinity = NegInfinity"

fun js_div :: "int js_number \<Rightarrow> int \<Rightarrow> real js_number" where
  "js_div (Finite a) d = binary64 (of_int a / of_int d)"
| "js_div NaN d = NaN"
| "js_div PosInfinity d = PosInfinity"
| "js_div NegInfinity d = NegInfinity"

fun js_rem :: "int js_number \<Rightarrow> int \<Rightarrow> int js_number" where
  "js_rem (Finite a) d = Finite (sgn a * (\<bar>a\<bar> mod d))"
| "js_rem NaN d = NaN"
| "js_rem PosInfinity d = NaN"
| "js_rem NegInfinity d = NaN"

text \<open>
  \<^verbatim>\<open>String(x)\<close> of a whole number (also in a template literal). The digits printed are
  those of the decimal \<open>s \<times> 10\<^sup>n\<^sup>-\<^sup>k\<close> with the fewest digits \<open>k\<close> whose binary64 value is
  \<open>x\<close>, the closest to \<open>x\<close> if there are several. For a whole number below \<open>2\<^sup>5\<^sup>3\<close> that
  decimal is the number itself. For a larger one, \<open>nearest a k\<close> looks at the two
  decimals of \<open>k\<close> digits next to \<open>a\<close>, and \<open>shortest a\<close> takes the first \<open>k\<close> that has one
  (17 digits always do). A decimal below \<open>10\<^sup>2\<^sup>1\<close> is printed in full, a greater one in
  exponent notation: the first digit, a point and the other digits if there are any,
  \<^verbatim>\<open>e+\<close> and the decimal exponent.
\<close>

definition round_trips :: "nat \<Rightarrow> nat \<Rightarrow> bool" where
  "round_trips a y \<longleftrightarrow> binary64 (real y) = Finite (real a)"

definition nearest :: "nat \<Rightarrow> nat \<Rightarrow> nat option" where
  "nearest a k =
     (let p = 10 ^ (length (decimal a) - k);
          lo = (a div p) * p;
          hi = lo + p
      in if round_trips a lo \<and> round_trips a hi
         then Some (if a - lo < hi - a then lo
                    else if hi - a < a - lo then hi
                    else if even (a div p) then lo else hi)
         else if round_trips a lo then Some lo
         else if round_trips a hi then Some hi
         else None)"

definition shortest :: "nat \<Rightarrow> nat" where
  "shortest a = (case List.map_filter (nearest a) [1..<18] of [] \<Rightarrow> a | y # ys \<Rightarrow> y)"

definition exponential :: "nat \<Rightarrow> jsstring" where
  "exponential y =
     (let ds = decimal y;
          sig = rev (dropWhile (\<lambda>c. c = 48) (rev ds))
      in (if length sig = 1 then sig else hd sig # 46 # tl sig)
           @ js ''e+'' @ decimal (length ds - 1))"

definition whole_toString :: "nat \<Rightarrow> jsstring" where
  "whole_toString a =
     (if a < 2 ^ 53 then decimal a
      else let y = shortest a in if y < 10 ^ 21 then decimal y else exponential y)"

fun Number_toString :: "int js_number \<Rightarrow> jsstring" where
  "Number_toString (Finite i) =
     (if i < 0 then 45 # whole_toString (nat (- i)) else whole_toString (nat i))"
| "Number_toString NaN = js ''NaN''"
| "Number_toString PosInfinity = js ''Infinity''"
| "Number_toString NegInfinity = js ''-Infinity''"

subsection \<open>formatDuration\<close>

text \<open>
  \<^verbatim>\<open>formatDuration\<close>, statement by statement. The hours are printed by the template
  literal, the minutes and the seconds by \<^verbatim>\<open>String\<close> and padded to two characters with
  \<^verbatim>\<open>0\<close> (character 48); a longer string is left as it is.
\<close>

definition formatDuration :: "real js_number \<Rightarrow> jsstring" where
  "formatDuration seconds =
     (let total = Math_floor seconds;
          h = Math_floor (js_div total 3600);
          m = Math_floor (js_div (js_rem total 3600) 60);
          s = js_rem total 60
      in Number_toString h @ js '':'' @ padStart (Number_toString m) 2 48 @ js '':''
           @ padStart (Number_toString s) 2 48)"

section \<open>Extraction functions\<close>

subsection \<open>extractHeader\<close>

definition DIFFICULTY_NAMES :: "int \<rightharpoonup> jsstring" where
  "DIFFICULTY_NAMES =
     [0 \<mapsto> js ''Easy'', 1 \<mapsto> js ''Normal'', 2 \<mapsto> js ''Hard'', 3 \<mapsto> js ''Brutal'',
      4 \<mapsto> js ''Impossible'']"

record header =
  saveVersion :: int
  missionId :: int
  missionIdName :: "jsstring option"
  difficultyId :: int
  difficultyName :: jsstring

definition extractHeader_expected :: "jsstring list" where
  "extractHeader_expected =
     map js [''saveVersion'', ''missionId'', ''difficultyId'', ''profileData'',
             ''specialHeaderValue'', ''customMapName'', ''completedCampaignLinks'']"

text \<open>
  \<^verbatim>\<open>DIFFICULTY_NAMES[difficultyId] || `Unknown(${difficultyId})`\<close>: the right operand is
  taken when the lookup is \<^verbatim>\<open>undefined\<close> (or the empty string).
\<close>

definition extractHeader :: "buffer \<Rightarrow> error + header option" where
  "extractHeader datData =
     (let expected = extractHeader_expected;
          cdef1 = findClassDefinition datData (js ''ProfileSaveHeader'') expected 0;
          cdef2 = (case cdef1 of
                     None \<Rightarrow> findClassDefinition datData (js ''UI.ProfileSaveHeader'') expected 0
                   | Some c \<Rightarrow> Some c)
      in case cdef2 of
           None \<Rightarrow> Inr None
         | Some cdef \<Rightarrow>
             (let offset = dataOffset cdef in
              case getInt32 datData offset of
                Inl e \<Rightarrow> Inl e
              | Inr sv \<Rightarrow>
                  (case getInt32 datData (offset + 4) of
                     Inl e \<Rightarrow> Inl e
                   | Inr mi \<Rightarrow>
                       (case getInt32 datData (offset + 8) of
                          Inl e \<Rightarrow> Inl e
                        | Inr di \<Rightarrow>
                            Inr (Some \<lparr>saveVersion = sv, missionId = mi, missionIdName = None,
                                        difficultyId = di,
                                        difficultyName =
                                          (case DIFFICULTY_NAMES di of
                                             Some n \<Rightarrow>
                                               if n \<noteq> [] then n
                                               else js ''Unknown('' @ String_int di @ js '')''
                                           | None \<Rightarrow>
                                               js ''Unknown('' @ String_int di @ js '')'')\<rparr>)))))"

subsection \<open>extractKilledEnemies\<close>

definition extractKilledEnemies :: "buffer \<Rightarrow> error + int option" where
  "extractKilledEnemies data =
     (case findClassDefinition data (js ''KilledEnemiesCounterSingleton'') [js ''value''] 0 of
        None \<Rightarrow> Inr None
      | Some cdef \<Rightarrow> map_sum id Some (getInt32 data (dataOffset cdef)))"

subsection \<open>extractSessionTime\<close>

text \<open>
  The two binary32 numbers read by \<^verbatim>\<open>extractSessionTime\<close>, as bit patterns. The four
  fields of the object of the source (\<^verbatim>\<open>gameSeconds\<close>, \<^verbatim>\<open>realSeconds\<close>, \<^verbatim>\<open>gameFormatted\<close>,
  \<^verbatim>\<open>realFormatted\<close>) are computed from these two numbers by floating-point arithmetic
  and \<^verbatim>\<open>formatDuration\<close>; that computation cannot throw and is not part of the model.
\<close>

record sessionTime =
  elapsedTime :: nat
  elapsedTimeUnscaled :: nat

definition extractSessionTime_expected :: "jsstring list" where
  "extractSessionTime_expected =
     map js [''nightIntensity'', ''elapsedTime'', ''elapsedTimeUnscaled'',
             ''previousFrameElapsedTime'', ''timeSpeed'', ''lastTimeSpeed'', ''dirty'']"

definition extractSessionTime :: "buffer \<Rightarrow> error + sessionTime option" where
  "extractSessionTime data =
     (case findClassDefinition data (js ''CurrentSessionTimeSingleton'')
             extractSessionTime_expected 0 of
        None \<Rightarrow> Inr None
      | Some cdef \<Rightarrow>
          (let offset = dataOffset cdef + 4 in
           case getFloat32 data offset of
             Inl e \<Rightarrow> Inl e
           | Inr et \<Rightarrow>
               (case getFloat32 data (offset + 4) of
                  Inl e \<Rightarrow> Inl e
                | Inr etu \<Rightarrow> Inr (Some \<lparr>elapsedTime = et, elapsedTimeUnscaled = etu\<rparr>))))"

subsection \<open>extractResources and extractUndeadResources\<close>

text \<open>The loop \<^verbatim>\<open>for (const name of expected)\<close> reading one Int32 per name.\<close>

fun readDay :: "buffer \<Rightarrow> jsstring list \<Rightarrow> int \<Rightarrow> jsobject \<Rightarrow> error + (jsobject \<times> int)" where
  "readDay data [] offset day = Inr (day, offset)"
| "readDay data (name # names) offset day =
     (case getInt32 data offset of
        Inl e \<Rightarrow> Inl e
      | Inr v \<Rightarrow> readDay data names (offset + 4) (obj_set day name (JSNumber v)))"

record resources =
  currentDay :: jsobject
  lastDay :: "jsobject option"

text \<open>
  The two functions have the same body, for different class names and field lists:
  the current day at the data offset, then, when the object id is not 0, the last day
  at the first back-reference after the current day.
\<close>

definition extractDays :: "buffer \<Rightarrow> jsstring \<Rightarrow> jsstring list \<Rightarrow> error + resources option" where
  "extractDays data name expected =
     (case findClassDefinition data name expected 0 of
        None \<Rightarrow> Inr None
      | Some cdef \<Rightarrow>
          (case readDay data expected (dataOffset cdef) [] of
             Inl e \<Rightarrow> Inl e
           | Inr (cur, offset) \<Rightarrow>
               if objectId cdef \<noteq> 0 then
                 (case findClassIdInstance data (objectId cdef) offset of
                    None \<Rightarrow> Inr (Some \<lparr>currentDay = cur, lastDay = None\<rparr>)
                  | Some cidOffset \<Rightarrow>
                      (case readDay data expected cidOffset [] of
                         Inl e \<Rightarrow> Inl e
                       | Inr (lst, off2) \<Rightarrow> Inr (Some \<lparr>currentDay = cur, lastDay = Some lst\<rparr>)))
               else Inr (Some \<lparr>currentDay = cur, lastDay = None\<rparr>)))"

definition extractResources_expected :: "jsstring list" where
  "extractResources_expected =
     map js [''foodByFarms'', ''foodByFishers'', ''foodByBerrypickers'', ''wood'',
             ''treesCutted'', ''treesPlanted'', ''stone'', ''iron'',
             ''woodConsuming'', ''ironConsuming'']"

definition extractResources :: "buffer \<Rightarrow> error + resources option" where
  "extractResources data =
     extractDays data (js ''ResourcesStatisticContainer'') extractResources_expected"

definition extractUndeadResources_expected :: "jsstring list" where
  "extractUndeadResources_expected =
     map js [''zombiesByBurial'', ''zombiesByCorpses'', ''deathMetal'', ''spirit'', ''bones'']"

definition extractUndeadResources :: "buffer \<Rightarrow> error + resources option" where
  "extractUndeadResources data =
     extractDays data (js ''UndeadResourcesStatisticContainer'') extractUndeadResources_expected"

subsection \<open>extractAchievements\<close>

definition extractAchievements_expected :: "jsstring list" where
  "extractAchievements_expected =
     map js [''gatheredGold'', ''lastGold'', ''siegeMachineWasTrained'',
             ''powerUndeadUnitsWasTrained'', ''portsDestroyed'',
             ''marketPartsDestroyed'', ''trainedUnitTypes'']"

text \<open>
  The field loop of \<^verbatim>\<open>extractAchievements\<close>: it leaves at the first tag that is not
  \<^verbatim>\<open>TAG_PRIMITIVE\<close>; an exception of \<^verbatim>\<open>readPrimitive\<close> is not caught here.
\<close>

function extractAchievements_loop ::
  "buffer \<Rightarrow> classDef \<Rightarrow> jsstring list \<Rightarrow> nat \<Rightarrow> int \<Rightarrow> jsobject \<Rightarrow> error + jsobject" where
  "extractAchievements_loop data cdef expected i offset result =
     (if i < length expected then
        (if elemAt (typeTags cdef) i \<noteq> Some TAG_PRIMITIVE then Inr result
         else
           (case readPrimitive data offset (elemAt (primTypes cdef) i) of
              Inl e \<Rightarrow> Inl e
            | Inr r \<Rightarrow>
                extractAchievements_loop data cdef expected (i + 1) (poffset r)
                  (obj_set result (expected ! i) (pvalue r))))
      else Inr result)"
  by pat_completeness auto
termination
  by (relation "measure (\<lambda>(data, cdef, expected, i, offset, result). length expected - i)") auto

declare extractAchievements_loop.simps [simp del]

definition extractAchievements :: "buffer \<Rightarrow> error + jsobject option" where
  "extractAchievements data =
     (case findClassDefinition data (js ''AchievementsSaveData'') extractAchievements_expected 0 of
        None \<Rightarrow> Inr None
      | Some cdef \<Rightarrow>
          map_sum id Some
            (extractAchievements_loop data cdef extractAchievements_expected 0 (dataOffset cdef) []))"

subsection \<open>extractWaves\<close>

text \<open>
  The field loop of \<^verbatim>\<open>readWaveFields\<close>, over the member names of the definition. The
  function catches every exception and returns \<^verbatim>\<open>null\<close> for it.
\<close>

function readWaveFields_loop ::
  "buffer \<Rightarrow> classDef \<Rightarrow> nat \<Rightarrow> int \<Rightarrow> jsobject \<Rightarrow> error + jsobject" where
  "readWaveFields_loop data cdef i offset wave =
     (if i < length (memberNames cdef) then
        (if elemAt (typeTags cdef) i \<noteq> Some TAG_PRIMITIVE then Inr wave
         else
           (case readPrimitive data offset (elemAt (primTypes cdef) i) of
              Inl e \<Rightarrow> Inl e
            | Inr r \<Rightarrow>
                readWaveFields_loop data cdef (i + 1) (poffset r)
                  (obj_set wave (memberNames cdef ! i) (pvalue r))))
      else Inr wave)"
  by pat_completeness auto
termination
  by (relation "measure (\<lambda>(data, cdef, i, offset, wave). length (memberNames cdef) - i)") auto

declare readWaveFields_loop.simps [simp del]

definition readWaveFields :: "buffer \<Rightarrow> int \<Rightarrow> classDef \<Rightarrow> jsobject option" where
  "readWaveFields data offset cdef =
     (case readWaveFields_loop data cdef 0 offset [] of Inl e \<Rightarrow> None | Inr wave \<Rightarrow> Some wave)"

record waveSummary =
  total :: nat
  destroyed :: nat
  majorWaves :: nat
  details :: "jsobject list"

definition extractWaves_expected :: "jsstring list" where
  "extractWaves_expected =
     map js [''referenceId'', ''waveId'', ''mapped'', ''fullySpawned'', ''waveDestroyed'', ''major'']"

text \<open>
  The array \<^verbatim>\<open>waves\<close> of \<^verbatim>\<open>extractWaves\<close> for a located definition: the first wave at
  the data offset, then one wave for each back-reference when the object id is not 0;
  a wave that \<^verbatim>\<open>readWaveFields\<close> could not read (\<^verbatim>\<open>null\<close>) is not pushed.
\<close>

definition decodedWaves :: "buffer \<Rightarrow> classDef \<Rightarrow> jsobject list" where
  "decodedWaves data cdef =
     (case readWaveFields data (dataOffset cdef) cdef of None \<Rightarrow> [] | Some first \<Rightarrow> [first])
     @ (if objectId cdef \<noteq> 0
        then List.map_filter (\<lambda>cidOffset. readWaveFields data cidOffset cdef)
               (findAllClassIdInstances data (objectId cdef) (dataOffset cdef))
        else [])"

text \<open>No statement of \<^verbatim>\<open>extractWaves\<close> can throw: its result is a summary or \<^verbatim>\<open>null\<close>.\<close>

definition extractWaves :: "buffer \<Rightarrow> waveSummary option" where
  "extractWaves data =
     (case findClassDefinition data (js ''WaveHolderSaveData'') extractWaves_expected 0 of
        None \<Rightarrow> None
      | Some cdef \<Rightarrow>
          (let waves = decodedWaves data cdef in
           if length waves = 0 then None
           else Some \<lparr>total = length waves,
                      destroyed = length (filter (\<lambda>w. obj_truthy w (js ''waveDestroyed'')) waves),
                      majorWaves = length (filter (\<lambda>w. obj_truthy w (js ''major'')) waves),
                      details = waves\<rparr>))"

section \<open>Main entry point\<close>

text \<open>
  The two files given to \<^verbatim>\<open>parseSaveFiles\<close>: name, size, modification time and bytes
  (the resolved \<^verbatim>\<open>arrayBuffer()\<close>).
\<close>

record inputFile =
  file_name :: jsstring
  file_size :: nat
  file_lastModified :: int
  file_bytes :: buffer

text \<open>
  \<^verbatim>\<open>new Date(t).toISOString()\<close> for the modification time of a file, a whole number of
  milliseconds since 1 January 1970 UTC. A time of magnitude above \<open>8.64 \<times> 10\<^sup>1\<^sup>5\<close> makes
  an invalid date, and \<^verbatim>\<open>toISOString\<close> of an invalid date throws a \<^verbatim>\<open>RangeError\<close>.
  Otherwise the result is the date and time in UTC, \<^verbatim>\<open>YYYY-MM-DDTHH:mm:ss.sssZ\<close>, in the
  Gregorian calendar extended to all years; a year outside 0 to 9999 is written with
  a sign and six digits. \<open>civil_from_days\<close> gives the year, month and day of a day
  number (day 0 is 1 January 1970): it counts the days from 1 March of year 0 in
  eras of 400 years (146097 days), and a year of an era begins in March.
\<close>

definition civil_from_days :: "int \<Rightarrow> int \<times> int \<times> int" where
  "civil_from_days days =
     (let z = days + 719468;
          era = z div 146097;
          doe = z mod 146097;
          yoe = (doe - doe div 1460 + doe div 36524 - doe div 146096) div 365;
          doy = doe - (365 * yoe + yoe div 4 - yoe div 100);
          mp = (5 * doy + 2) div 153;
          d = doy - (153 * mp + 2) div 5 + 1;
          m = (if mp < 10 then mp + 3 else mp - 9)
      in (yoe + era * 400 + (if m \<le> 2 then 1 else 0), m, d))"

definition digits :: "nat \<Rightarrow> int \<Rightarrow> jsstring" where
  "digits n i = padStart (decimal (nat i)) n 48"

definition Date_toISOString :: "int \<Rightarrow> error + jsstring" where
  "Date_toISOString t =
     (if 8640000000000000 < \<bar>t\<bar> then Inl RangeError
      else let (y, m, d) = civil_from_days (t div 86400000);
               ms = t mod 86400000
           in Inr ((if 0 \<le> y \<and> y \<le> 9999 then digits 4 y
                    else (if y < 0 then 45 else 43) # digits 6 \<bar>y\<bar>)
                   @ js ''-'' @ digits 2 m @ js ''-'' @ digits 2 d @ js ''T''
                   @ digits 2 (ms div 3600000) @ js '':'' @ digits 2 (ms div 60000 mod 60)
                   @ js '':'' @ digits 2 (ms div 1000 mod 60) @ js ''.''
                   @ digits 3 (ms mod 1000) @ js ''Z''))"

text \<open>
  A property that the source sets only under a condition is an optional field. An
  entry of \<^verbatim>\<open>errors\<close> is the string \<^verbatim>\<open>tag + ': ' + e.message\<close>; the model keeps the
  tag and the exception (the message of a \<^verbatim>\<open>RangeError\<close> is the engine's).
\<close>

record statistics =
  enemiesKilled :: "int option"
  sessionTime :: "sessionTime option"
  resources :: "resources option"
  undeadResources :: "resources option"
  achievements :: "jsobject option"
  waves :: "waveSummary option"

record saveEntry =
  fileName :: jsstring
  fileSize :: nat
  lastModified :: jsstring
  statistics :: statistics
  header :: "header option"
  errors :: "(jsstring \<times> error) list option"

text \<open>
  One statement \<^verbatim>\<open>try { x = f(data); } catch (e) { errors.push(tag + e.message); }\<close>:
  the new value of \<open>x\<close> (which was \<^verbatim>\<open>null\<close> before) and of \<^verbatim>\<open>errors\<close>.
\<close>

definition attempt ::
  "string \<Rightarrow> error + 'a option \<Rightarrow> (jsstring \<times> error) list \<Rightarrow> 'a option \<times> (jsstring \<times> error) list" where
  "attempt tag r errs = (case r of Inl e \<Rightarrow> (None, errs @ [(js tag, e)]) | Inr v \<Rightarrow> (v, errs))"

text \<open>
  \<^verbatim>\<open>parseSaveFiles\<close> returns the save entry inside a constant envelope (extractor
  version, the time of the call, one profile named \<^verbatim>\<open>Uploaded Save\<close>); the model returns
  the save entry. The seven decoders run inside their \<^verbatim>\<open>try\<close> blocks; the modification
  time is formatted afterwards, outside every \<^verbatim>\<open>try\<close> block, so the \<^verbatim>\<open>RangeError\<close> of an
  invalid date is thrown by \<^verbatim>\<open>parseSaveFiles\<close> itself (the promise it returns is
  rejected), and no entry is returned.
\<close>

definition parseSaveFiles :: "inputFile \<Rightarrow> inputFile \<Rightarrow> error + saveEntry" where
  "parseSaveFiles saveFile datFile =
     (let saveData = file_bytes saveFile;
          datData = file_bytes datFile;
          (hd0, errors1) = attempt ''header'' (extractHeader datData) [];
          (ek, errors2) = attempt ''enemiesKilled'' (extractKilledEnemies saveData) errors1;
          (st, errors3) = attempt ''sessionTime'' (extractSessionTime saveData) errors2;
          (rs, errors4) = attempt ''resources'' (extractResources saveData) errors3;
          (ur, errors5) = attempt ''undeadResources'' (extractUndeadResources saveData) errors4;
          (ac, errors6) = attempt ''achievements'' (extractAchievements saveData) errors5;
          (wv, errors7) = attempt ''waves'' (Inr (extractWaves saveData)) errors6
      in case Date_toISOString (file_lastModified saveFile) of
           Inl e \<Rightarrow> Inl e
         | Inr modified \<Rightarrow>
             Inr \<lparr>fileName = file_name saveFile,
                  fileSize = file_size saveFile,
                  lastModified = modified,
                  statistics = \<lparr>enemiesKilled = ek, sessionTime = st, resources = rs,
                                 undeadResources = ur, achievements = ac, waves = wv\<rparr>,
                  header = hd0,
                  errors = (if errors7 = [] then None else Some errors7)\<rparr>)"

section \<open>Reference definitions\<close>

subsection \<open>Field decoders\<close>

text \<open>
  The number of fields of the longest prefix of the schema whose wire tags are all
  Primitive, and the decoding of a list of (name, primitive type) fields in order,
  each with \<^verbatim>\<open>readPrimitive\<close>, stopping at the first exception.
\<close>

definition primitivePrefix :: "classDef \<Rightarrow> nat" where
  "primitivePrefix cdef = length (takeWhile (\<lambda>t. t = Some TAG_PRIMITIVE) (typeTags cdef))"

fun readFields :: "buffer \<Rightarrow> (jsstring \<times> byte option) list \<Rightarrow> int \<Rightarrow> jsobject \<Rightarrow> error + jsobject" where
  "readFields data [] offset result = Inr result"
| "readFields data ((name, prim) # fs) offset result =
     (case readPrimitive data offset prim of
        Inl e \<Rightarrow> Inl e
      | Inr r \<Rightarrow> readFields data fs (poffset r) (obj_set result name (pvalue r)))"

subsection \<open>Orchestrator\<close>

text \<open>
  What one decoder contributes to the result: the value it returned (\<open>None\<close> when it
  returned \<^verbatim>\<open>null\<close> or threw), and the tagged error when it threw.
\<close>

definition decoded :: "error + 'a option \<Rightarrow> 'a option" where
  "decoded r = (case r of Inl e \<Rightarrow> None | Inr v \<Rightarrow> v)"

definition thrown :: "string \<Rightarrow> error + 'a option \<Rightarrow> (jsstring \<times> error) list" where
  "thrown tag r = (case r of Inl e \<Rightarrow> [(js tag, e)] | Inr v \<Rightarrow> [])"

section \<open>Concrete buffers\<close>

text \<open>
  The buffers on which the theorems below are instantiated and on which the
  counterexamples are evaluated.
\<close>

text \<open>
  A small buffer with two occurrences of the class name \<^verbatim>\<open>K\<close>: the first is followed
  by the field count 2, the second by the field count 1, the field name \<^verbatim>\<open>v\<close>, the
  tag of a primitive, the primitive type Int32, a library id and the value 1234.
\<close>

definition buf_K :: buffer where
  "buf_K = [0x4B, 2, 0, 0, 0, 0x4B, 1, 0, 0, 0, 1, 0x76, 0, 8, 0, 0, 0, 0, 0xD2, 4, 0, 0]"

text \<open>
  A buffer of ten bytes whose only marker byte \<^verbatim>\<open>0x01\<close> stands at offset 1, that is at
  \<open>length - 9\<close>, followed by four bytes and the object id 7.
\<close>

definition buf_ref :: buffer where
  "buf_ref = [0, 1, 0, 0, 0, 0, 7, 0, 0, 0]"

text \<open>
  A mission header record as the serializer writes it: the record type byte, the
  object id 1, the length-prefixed class name \<^verbatim>\<open>ProfileSaveHeader\<close>, the field count 7,
  the seven field names, the seven tags (primitive, primitive, primitive, class,
  primitive, string, system class), their type information and a library id.
  \<open>buf_header\<close> continues with the Int32 values 3, 5 and 7, \<open>buf_header_hard\<close> with 3, 5
  and 2; \<open>buf_header_cut\<close> ends inside the first value.
\<close>

definition buf_header_head :: buffer where
  "buf_header_head =
     [5] @ [1, 0, 0, 0] @ [17] @ TextEncoder_encode (js ''ProfileSaveHeader'') @ [7, 0, 0, 0]
     @ [11] @ TextEncoder_encode (js ''saveVersion'')
     @ [9] @ TextEncoder_encode (js ''missionId'')
     @ [12] @ TextEncoder_encode (js ''difficultyId'')
     @ [11] @ TextEncoder_encode (js ''profileData'')
     @ [18] @ TextEncoder_encode (js ''specialHeaderValue'')
     @ [13] @ TextEncoder_encode (js ''customMapName'')
     @ [22] @ TextEncoder_encode (js ''completedCampaignLinks'')
     @ [0, 0, 0, 4, 0, 1, 3]
     @ [8, 8, 8] @ [11] @ TextEncoder_encode (js ''ProfileData'') @ [2, 0, 0, 0]
     @ [8] @ [8] @ TextEncoder_encode (js ''System.X'')
     @ [2, 0, 0, 0]"

definition buf_header :: buffer where
  "buf_header = buf_header_head @ [3, 0, 0, 0] @ [5, 0, 0, 0] @ [7, 0, 0, 0]"

definition buf_header_hard :: buffer where
  "buf_header_hard = buf_header_head @ [3, 0, 0, 0] @ [5, 0, 0, 0] @ [2, 0, 0, 0]"

definition buf_header_cut :: buffer where
  "buf_header_cut = buf_header_head @ [3, 0]"

definition buf_header_cdef :: classDef where
  "buf_header_cdef =
     \<lparr>className = js ''ProfileSaveHeader'', memberCount = 7,
      memberNames = extractHeader_expected,
      typeTags = [Some 0, Some 0, Some 0, Some 4, Some 0, Some 1, Some 3],
      primTypes = [Some 8, Some 8, Some 8, Some 0, Some 8, Some 0, Some 0],
      dataOffset = 170, objectId = 1\<rparr>"

text \<open>
  A kill counter record as the serializer writes it: record type, object id 3, the
  length-prefixed class name, one field \<^verbatim>\<open>value\<close> of primitive type Int32, a library
  id. \<open>buf_kills\<close> continues with the value 1234; \<open>buf_kills_cut\<close> ends inside the
  value.
\<close>

definition buf_kills_head :: buffer where
  "buf_kills_head =
     [5] @ [3, 0, 0, 0] @ [29] @ TextEncoder_encode (js ''KilledEnemiesCounterSingleton'')
     @ [1, 0, 0, 0] @ [5] @ TextEncoder_encode (js ''value'') @ [0] @ [8] @ [2, 0, 0, 0]"

definition buf_kills :: buffer where
  "buf_kills = buf_kills_head @ [0xD2, 4, 0, 0]"

definition buf_kills_cut :: buffer where
  "buf_kills_cut = buf_kills_head @ [0xD2, 4]"

text \<open>A file with the given bytes.\<close>

definition save_file :: "buffer \<Rightarrow> inputFile" where
  "save_file bytes =
     \<lparr>file_name = js ''save'', file_size = length bytes, file_lastModified = 0, file_bytes = bytes\<rparr>"

text \<open>
  An achievements record: the class name, the field count 7, the seven field names,
  six primitive tags and a system class tag, the primitive types (Int32, Int32,
  Boolean, Boolean, Int32, Int32), the class name of the last field and a library id.
  \<open>buf_ach\<close> continues with the six values 100, 50, true, false, 2, 3 and two more
  bytes; \<open>buf_ach_cut\<close> ends in the middle of the second value.
\<close>

definition buf_ach_head :: buffer where
  "buf_ach_head =
     TextEncoder_encode (js ''AchievementsSaveData'') @ [7, 0, 0, 0]
     @ [12] @ TextEncoder_encode (js ''gatheredGold'')
     @ [8] @ TextEncoder_encode (js ''lastGold'')
     @ [22] @ TextEncoder_encode (js ''siegeMachineWasTrained'')
     @ [26] @ TextEncoder_encode (js ''powerUndeadUnitsWasTrained'')
     @ [14] @ TextEncoder_encode (js ''portsDestroyed'')
     @ [20] @ TextEncoder_encode (js ''marketPartsDestroyed'')
     @ [16] @ TextEncoder_encode (js ''trainedUnitTypes'')
     @ [0, 0, 0, 0, 0, 0, 3]
     @ [8, 8, 1, 1, 8, 8] @ [20] @ TextEncoder_encode (js ''System.Collections.X'')
     @ [2, 0, 0, 0]"

definition buf_ach :: buffer where
  "buf_ach = buf_ach_head @ [100, 0, 0, 0, 50, 0, 0, 0, 1, 0, 2, 0, 0, 0, 3, 0, 0, 0] @ [9, 9]"

definition buf_ach_cut :: buffer where
  "buf_ach_cut = buf_ach_head @ [100, 0, 0, 0, 50, 0]"

definition buf_ach_cdef :: classDef where
  "buf_ach_cdef =
     \<lparr>className = js ''AchievementsSaveData'', memberCount = 7,
      memberNames = extractAchievements_expected,
      typeTags = [Some 0, Some 0, Some 0, Some 0, Some 0, Some 0, Some 3],
      primTypes = [Some 8, Some 8, Some 1, Some 1, Some 8, Some 8, Some 0],
      dataOffset = 187, objectId = 0\<rparr>"

text \<open>
  A wave record as the serializer writes it: the record type byte, the object id 7,
  the length-prefixed class name, the field count 6, the six field names, six
  primitive tags, the primitive types (Int32, Int32 and four Boolean) and a library
  id. \<open>buf_waves\<close> continues with the values of a first wave, a back-reference record
  (marker \<^verbatim>\<open>0x01\<close>, a new object id, the id 7) and the values of a second wave;
  \<open>buf_waves_cut\<close> ends inside the first value.
\<close>

definition buf_wave_head :: buffer where
  "buf_wave_head =
     [5] @ [7, 0, 0, 0] @ [18] @ TextEncoder_encode (js ''WaveHolderSaveData'') @ [6, 0, 0, 0]
     @ [11] @ TextEncoder_encode (js ''referenceId'')
     @ [6] @ TextEncoder_encode (js ''waveId'')
     @ [6] @ TextEncoder_encode (js ''mapped'')
     @ [12] @ TextEncoder_encode (js ''fullySpawned'')
     @ [13] @ TextEncoder_encode (js ''waveDestroyed'')
     @ [5] @ TextEncoder_encode (js ''major'')
     @ [0, 0, 0, 0, 0, 0]
     @ [8, 8, 1, 1, 1, 1]
     @ [2, 0, 0, 0]"

definition buf_waves :: buffer where
  "buf_waves =
     buf_wave_head @ [10, 0, 0, 0, 1, 0, 0, 0, 1, 1, 1, 1]
     @ [1] @ [9, 0, 0, 0] @ [7, 0, 0, 0] @ [11, 0, 0, 0, 2, 0, 0, 0, 1, 1, 0, 0]"

definition buf_waves_cut :: buffer where
  "buf_waves_cut = buf_wave_head @ [10, 0]"


definition buf_waves_cdef :: classDef where
  "buf_waves_cdef =
     \<lparr>className = js ''WaveHolderSaveData'', memberCount = 6,
      memberNames = extractWaves_expected,
      typeTags = [Some 0, Some 0, Some 0, Some 0, Some 0, Some 0],
      primTypes = [Some 8, Some 8, Some 1, Some 1, Some 1, Some 1],
      dataOffset = 103, objectId = 7\<rparr>"

section \<open>Evaluation rules\<close>

text \<open>
  The equations that evaluate the parser on a concrete buffer. They are used with the
  weak congruence rules for \<open>let\<close> and pairs, so that a bound expression is evaluated
  before the body that uses it.
\<close>

lemma replicate_numeral_Cons: "replicate (numeral k) x = x # replicate (pred_numeral k) x"
  by (simp add: numeral_eq_Suc)

lemmas parser_eval =
  parse7BitInt_def parse7BitInt_loop.simps byteAt_def subarray_def TextDecoder_decode_def
  utf8_decode.simps TextEncoder_encode_def utf8_encode_cp_def js_def parseBfString_def
  readLE_def toSigned_def getUint32_def getInt16_def getInt32_def getBigInt64_def
  getFloat32_def getFloat64_def
  TAG_PRIMITIVE_def TAG_STRING_def TAG_SYSTEM_CLASS_def TAG_CLASS_def TAG_PRIMITIVE_ARRAY_def
  PRIM_BOOLEAN_def PRIM_BYTE_def PRIM_INT16_def PRIM_INT32_def PRIM_INT64_def PRIM_SINGLE_def
  PRIM_DOUBLE_def readPrimitive_def findBytes.simps readMemberNames.simps readTypeTags.simps
  readTypeInfo.simps elemAt_def endsWith_def findObjectId.simps parseCandidate_def
  findClassDefinition_scan.simps findClassDefinition_def Let_def replicate_numeral_Cons

section \<open>Properties of the variable-length integer\<close>

lemma byteAt_append_zero:
  "byteAt (data @ [0]) i = (if i = int (length data) then Some 0 else byteAt data i)"
  by (auto simp: byteAt_def nth_append)

lemma parse7BitInt_loop_None:
  "byteAt data offset = None \<Longrightarrow>
   parse7BitInt_loop data offset result shift = \<lparr>pvalue = sint result, poffset = offset + 1\<rparr>"
  by (subst parse7BitInt_loop.simps) simp

lemma parse7BitInt_loop_Some:
  "byteAt data offset = Some b \<Longrightarrow>
   parse7BitInt_loop data offset result shift =
     (if b AND 0x80 \<noteq> 0
      then parse7BitInt_loop data (offset + 1)
             (result OR push_bit (shift mod 32) (ucast (b AND 0x7F))) (shift + 7)
      else \<lparr>pvalue = sint (result OR push_bit (shift mod 32) (ucast (b AND 0x7F))),
            poffset = offset + 1\<rparr>)"
  by (subst parse7BitInt_loop.simps) (simp add: Let_def)

lemma parse7BitInt_loop_padded:
  "parse7BitInt_loop (data @ [0]) offset result shift = parse7BitInt_loop data offset result shift"
proof (induction data offset result shift rule: parse7BitInt_loop.induct)
  case (1 data offset result shift)
  show ?case
  proof (cases "byteAt data offset")
    case None
    show ?thesis
    proof (cases "offset = int (length data)")
      case True
      then have "byteAt (data @ [0]) offset = Some 0"
        by (simp add: byteAt_append_zero)
      then show ?thesis
        using None by (simp add: parse7BitInt_loop_Some parse7BitInt_loop_None)
    next
      case False
      then have "byteAt (data @ [0]) offset = None"
        using None by (simp add: byteAt_append_zero)
      then show ?thesis
        using None by (simp add: parse7BitInt_loop_None)
    qed
  next
    case (Some b)
    then have "offset \<noteq> int (length data)"
      by (auto simp: byteAt_def split: if_splits)
    then have "byteAt (data @ [0]) offset = Some b"
      using Some by (simp add: byteAt_append_zero)
    then show ?thesis
      using Some "1.IH" [OF Some refl]
      by (simp add: parse7BitInt_loop_Some)
  qed
qed

lemma parse7BitInt_loop_runs_out:
  assumes "0 \<le> offset" "offset \<le> int (length data)"
    and "\<forall>i. offset \<le> i \<and> i < int (length data) \<longrightarrow> (data ! nat i) AND 0x80 \<noteq> 0"
  shows "poffset (parse7BitInt_loop data offset result shift) = int (length data) + 1"
  using assms
proof (induction data offset result shift rule: parse7BitInt_loop.induct)
  case (1 data offset result shift)
  show ?case
  proof (cases "byteAt data offset")
    case None
    with "1.prems" have "offset = int (length data)"
      by (auto simp: byteAt_def split: if_splits)
    with None show ?thesis
      by (simp add: parse7BitInt_loop_None)
  next
    case (Some b)
    then have lt: "offset < int (length data)" and b: "b = data ! nat offset"
      by (auto simp: byteAt_def split: if_splits)
    with "1.prems" have hi: "b AND 0x80 \<noteq> 0" by blast
    have "poffset (parse7BitInt_loop data (offset + 1)
            (result OR push_bit (shift mod 32) (ucast (b AND 0x7F))) (shift + 7))
          = int (length data) + 1"
      using "1.IH" [OF Some refl hi] "1.prems" lt by simp
    with Some hi show ?thesis
      by (simp add: parse7BitInt_loop_Some)
  qed
qed

text \<open>
  Claim C1 (as amended). \<^verbatim>\<open>parse7BitInt\<close> has no failure: a read outside the buffer
  acts as a terminating byte that contributes no bits, so the result is always the
  result on the buffer extended by one zero byte. When every byte from the offset to
  the end of the buffer has its high bit set, the returned offset is one past the
  index that was read outside the buffer, \<open>length data + 1\<close>; when the offset itself is
  outside the buffer, the result is the value 0 and the offset plus 1.
\<close>

theorem parse7BitInt_past_end:
  "parse7BitInt data offset = parse7BitInt (data @ [0]) offset \<and>
   (0 \<le> offset \<and> offset \<le> int (length data) \<and>
    (\<forall>i. offset \<le> i \<and> i < int (length data) \<longrightarrow> (data ! nat i) AND 0x80 \<noteq> 0)
      \<longrightarrow> poffset (parse7BitInt data offset) = int (length data) + 1) \<and>
   (offset < 0 \<or> int (length data) \<le> offset
      \<longrightarrow> parse7BitInt data offset = \<lparr>pvalue = 0, poffset = offset + 1\<rparr>)"
proof (intro conjI impI)
  show "parse7BitInt data offset = parse7BitInt (data @ [0]) offset"
    by (simp add: parse7BitInt_def parse7BitInt_loop_padded)
next
  assume "0 \<le> offset \<and> offset \<le> int (length data) \<and>
    (\<forall>i. offset \<le> i \<and> i < int (length data) \<longrightarrow> (data ! nat i) AND 0x80 \<noteq> 0)"
  then show "poffset (parse7BitInt data offset) = int (length data) + 1"
    using parse7BitInt_loop_runs_out [of offset data 0 0] by (simp add: parse7BitInt_def)
next
  assume "offset < 0 \<or> int (length data) \<le> offset"
  then have "byteAt data offset = None"
    by (auto simp: byteAt_def)
  then show "parse7BitInt data offset = \<lparr>pvalue = 0, poffset = offset + 1\<rparr>"
    by (simp add: parse7BitInt_def parse7BitInt_loop_None)
qed

theorem parse7BitInt_past_end_witness:
  "parse7BitInt [0x85, 0x80] 0 = parse7BitInt [0x85, 0x80, 0] 0 \<and>
   parse7BitInt [0x85, 0x80] 0 = \<lparr>pvalue = 5, poffset = 3\<rparr> \<and>
   parse7BitInt [0x85, 0x80] 2 = \<lparr>pvalue = 0, poffset = 3\<rparr>"
proof -
  have h: "\<forall>i. 0 \<le> i \<and> i < int (length [0x85, 0x80 :: byte]) \<longrightarrow>
             ([0x85, 0x80 :: byte] ! nat i) AND 0x80 \<noteq> 0"
  proof (intro allI impI)
    fix i :: int assume "0 \<le> i \<and> i < int (length [0x85, 0x80 :: byte])"
    then have "i = 0 \<or> i = 1" by auto
    then show "([0x85, 0x80 :: byte] ! nat i) AND 0x80 \<noteq> 0" by auto
  qed
  have v: "parse7BitInt [0x85, 0x80] 0 = \<lparr>pvalue = 5, poffset = 3\<rparr>"
    by (simp add: parse7BitInt_def parse7BitInt_loop.simps byteAt_def)
  from parse7BitInt_past_end [of "[0x85, 0x80]" 0]
  have a: "parse7BitInt [0x85, 0x80] 0 = parse7BitInt [0x85, 0x80, 0] 0"
    by simp
  from parse7BitInt_past_end [of "[0x85, 0x80]" 0, THEN conjunct2, THEN conjunct1] h
  have b: "poffset (parse7BitInt [0x85, 0x80] 0) = 3"
    by simp
  from parse7BitInt_past_end [of "[0x85, 0x80]" 2, THEN conjunct2, THEN conjunct2]
  have c: "parse7BitInt [0x85, 0x80] 2 = \<lparr>pvalue = 0, poffset = 3\<rparr>"
    by simp
  from a b c v show ?thesis by simp
qed

text \<open>
  The claim as stated fails: on the one-byte buffer \<^verbatim>\<open>[0x80]\<close> the byte at offset 0
  has its high bit set, the read at offset 1 is outside the buffer, and the function
  returns the value 0 with offset 2.
\<close>

theorem parse7BitInt_past_end_counterexample:
  "byteAt [0x80] 0 = Some 0x80 \<and> (0x80 :: byte) AND 0x80 \<noteq> 0 \<and> byteAt [0x80] 1 = None \<and>
   parse7BitInt [0x80] 0 = \<lparr>pvalue = 0, poffset = 2\<rparr>"
  by (simp add: parse7BitInt_def parse7BitInt_loop.simps byteAt_def)

section \<open>Properties of the length-prefixed string\<close>

lemma parse7BitInt_loop_advances:
  "offset < poffset (parse7BitInt_loop data offset result shift)"
proof (induction data offset result shift rule: parse7BitInt_loop.induct)
  case (1 data offset result shift)
  show ?case
  proof (cases "byteAt data offset")
    case None
    then show ?thesis by (simp add: parse7BitInt_loop_None)
  next
    case (Some b)
    show ?thesis
    proof (cases "b AND 0x80 \<noteq> 0")
      case True
      with "1.IH" [OF Some refl True] Some show ?thesis
        by (simp add: parse7BitInt_loop_Some)
    next
      case False
      with Some show ?thesis by (simp add: parse7BitInt_loop_Some)
    qed
  qed
qed

lemma subarray_to_end:
  assumes "0 \<le> b" "int (length data) \<le> e"
  shows "subarray data b e = drop (nat b) data"
proof -
  have e: "min e (int (length data)) = int (length data)"
    using assms(2) by simp
  have "length (drop (nat (min b (int (length data)))) data)
          \<le> nat (max (int (length data) - min b (int (length data))) 0)"
    using assms(1) by (simp add: min_def max_def) linarith
  moreover have "drop (nat (min b (int (length data)))) data = drop (nat b) data"
    using assms(1) by (simp add: min_def)
  ultimately show ?thesis
    using assms by (simp add: subarray_def Let_def e)
qed

text \<open>
  Claim C2 (as amended). \<^verbatim>\<open>parseBfString\<close> has no failure. When the decoded length
  prefix exceeds the number of bytes that remain after the prefix, it returns the
  text decoded from the bytes that remain (the \<^verbatim>\<open>subarray\<close> is clamped to the buffer)
  and the offset after the prefix plus the decoded length, which lies past the end of
  the buffer.
\<close>

theorem parseBfString_truncated:
  assumes "0 \<le> offset"
    and "int (length data) - poffset (parse7BitInt data offset) < pvalue (parse7BitInt data offset)"
  shows "parseBfString data offset =
           \<lparr>pvalue = TextDecoder_decode (drop (nat (poffset (parse7BitInt data offset))) data),
            poffset = poffset (parse7BitInt data offset) + pvalue (parse7BitInt data offset)\<rparr> \<and>
         int (length data) < poffset (parseBfString data offset)"
proof -
  let ?len = "parse7BitInt data offset"
  have "offset < poffset ?len"
    by (simp add: parse7BitInt_def parse7BitInt_loop_advances)
  with assms(1) have p: "0 \<le> poffset ?len" by simp
  from assms(2) have e: "int (length data) \<le> poffset ?len + pvalue ?len" by simp
  show ?thesis
    using assms(2) by (simp add: parseBfString_def Let_def subarray_to_end [OF p e])
qed

theorem parseBfString_truncated_witness:
  "parseBfString [5, 0x61] 0 = \<lparr>pvalue = TextDecoder_decode [0x61], poffset = 6\<rparr> \<and>
   int (length [5, 0x61 :: byte]) < poffset (parseBfString [5, 0x61] 0)"
proof -
  have v: "parse7BitInt [5, 0x61] 0 = \<lparr>pvalue = 5, poffset = 1\<rparr>"
    by (simp add: parse7BitInt_def parse7BitInt_loop.simps byteAt_def)
  from parseBfString_truncated [of 0 "[5, 0x61]"] show ?thesis
    by (simp add: v)
qed

text \<open>
  The claim as stated fails: in the buffer \<^verbatim>\<open>[5, 0x61]\<close> the prefix announces 5 bytes
  and one byte remains; the function returns the shortened string \<^verbatim>\<open>a\<close> and offset 6.
\<close>

theorem parseBfString_truncated_counterexample:
  "parse7BitInt [5, 0x61] 0 = \<lparr>pvalue = 5, poffset = 1\<rparr> \<and>
   parseBfString [5, 0x61] 0 = \<lparr>pvalue = js ''a'', poffset = 6\<rparr>"
  by (simp add: parser_eval cong: let_weak_cong)

section \<open>Properties of the class finder\<close>

lemma parseCandidate_accept:
  assumes "parseCandidate data name expectedFields p = Inr (Some cdef)"
  shows "memberCount cdef = length expectedFields \<and>
         getUint32 data (p + int (length (TextEncoder_encode name))) = Inr (length expectedFields)"
  using assms
  by (auto simp: parseCandidate_def Let_def split: sum.splits if_splits prod.splits)

lemma findClassDefinition_scan_accept:
  "findClassDefinition_scan data name expectedFields pos = Some (p, cdef) \<Longrightarrow>
   parseCandidate data name expectedFields p = Inr (Some cdef)"
proof (induction data name expectedFields pos rule: findClassDefinition_scan.induct)
  case (1 data name expectedFields pos)
  let ?q = "findBytes data (TextEncoder_encode name) pos"
  from "1.prems" have q: "?q \<noteq> - 1"
    by (subst (asm) findClassDefinition_scan.simps) (auto simp: Let_def)
  show ?case
  proof (cases "parseCandidate data name expectedFields ?q")
    case (Inl e)
    with q "1.prems" have "findClassDefinition_scan data name expectedFields (?q + 1) = Some (p, cdef)"
      by (subst (asm) findClassDefinition_scan.simps) (simp add: Let_def)
    with "1.IH"(1) [OF refl q Inl] show ?thesis by simp
  next
    case (Inr r)
    show ?thesis
    proof (cases r)
      case None
      with Inr q "1.prems" have "findClassDefinition_scan data name expectedFields (?q + 1) = Some (p, cdef)"
        by (subst (asm) findClassDefinition_scan.simps) (simp add: Let_def)
      with "1.IH"(2) [OF refl q Inr None] show ?thesis by simp
    next
      case (Some c)
      with Inr q "1.prems" have "p = ?q" "cdef = c"
        by (subst (asm) findClassDefinition_scan.simps, simp add: Let_def)+
      with Inr Some show ?thesis by simp
    qed
  qed
qed

lemma findClassDefinition_scan_reject:
  assumes "findBytes data (TextEncoder_encode name) pos = c" "c \<noteq> - 1"
    and "getUint32 data (c + int (length (TextEncoder_encode name))) \<noteq> Inr (length expectedFields)"
  shows "findClassDefinition_scan data name expectedFields pos =
         findClassDefinition_scan data name expectedFields (c + 1)"
proof -
  have "parseCandidate data name expectedFields c = Inr None \<or>
        (\<exists>e. parseCandidate data name expectedFields c = Inl e)"
    using assms(3) by (auto simp: parseCandidate_def Let_def split: sum.splits)
  then show ?thesis
    using assms(1,2)
    by (subst findClassDefinition_scan.simps) (auto simp: Let_def)
qed

text \<open>
  Claim C3. Whenever \<^verbatim>\<open>findClassDefinition\<close> returns a definition, its member count
  is the length of the expected field list, and the candidate position at which it
  was accepted carries that count as its 4-byte little-endian field count. A
  candidate (an occurrence of the name found by \<^verbatim>\<open>findBytes\<close>) whose field count
  differs, or cannot be read, is left: the scan goes on from candidate + 1.
\<close>

theorem findClassDefinition_field_count:
  "(findClassDefinition data name expectedFields start = Some cdef \<longrightarrow>
      memberCount cdef = length expectedFields) \<and>
   (findClassDefinition_scan data name expectedFields start = Some (p, cdef') \<longrightarrow>
      getUint32 data (p + int (length (TextEncoder_encode name))) = Inr (length expectedFields)) \<and>
   (findBytes data (TextEncoder_encode name) start = c \<and> c \<noteq> - 1 \<and>
    getUint32 data (c + int (length (TextEncoder_encode name))) \<noteq> Inr (length expectedFields) \<longrightarrow>
      findClassDefinition_scan data name expectedFields start =
        findClassDefinition_scan data name expectedFields (c + 1) \<and>
      findClassDefinition data name expectedFields start =
        findClassDefinition data name expectedFields (c + 1))"
proof (intro conjI impI)
  assume "findClassDefinition data name expectedFields start = Some cdef"
  then obtain q where "findClassDefinition_scan data name expectedFields start = Some (q, cdef)"
    by (auto simp: findClassDefinition_def)
  then show "memberCount cdef = length expectedFields"
    using findClassDefinition_scan_accept parseCandidate_accept by blast
next
  assume "findClassDefinition_scan data name expectedFields start = Some (p, cdef')"
  then show "getUint32 data (p + int (length (TextEncoder_encode name))) = Inr (length expectedFields)"
    using findClassDefinition_scan_accept parseCandidate_accept by blast
next
  assume a: "findBytes data (TextEncoder_encode name) start = c \<and> c \<noteq> - 1 \<and>
    getUint32 data (c + int (length (TextEncoder_encode name))) \<noteq> Inr (length expectedFields)"
  then show s: "findClassDefinition_scan data name expectedFields start =
        findClassDefinition_scan data name expectedFields (c + 1)"
    using findClassDefinition_scan_reject by blast
  then show "findClassDefinition data name expectedFields start =
        findClassDefinition data name expectedFields (c + 1)"
    by (simp add: findClassDefinition_def)
qed

lemma buf_K_scan:
  "findClassDefinition_scan buf_K (js ''K'') [js ''v''] 0 =
     Some (5, \<lparr>className = js ''K'', memberCount = 1, memberNames = [js ''v''],
               typeTags = [Some 0], primTypes = [Some 8], dataOffset = 18, objectId = 0\<rparr>)"
  by (simp add: parser_eval buf_K_def cong: let_weak_cong prod.case_cong_weak)

theorem findClassDefinition_field_count_witness:
  "findClassDefinition buf_K (js ''K'') [js ''v''] 0 =
     Some \<lparr>className = js ''K'', memberCount = 1, memberNames = [js ''v''],
               typeTags = [Some 0], primTypes = [Some 8], dataOffset = 18, objectId = 0\<rparr> \<and>
   memberCount \<lparr>className = js ''K'', memberCount = 1, memberNames = [js ''v''],
               typeTags = [Some 0], primTypes = [Some 8], dataOffset = 18, objectId = 0\<rparr>
     = length [js ''v''] \<and>
   getUint32 buf_K (5 + int (length (TextEncoder_encode (js ''K'')))) = Inr (length [js ''v'']) \<and>
   findBytes buf_K (TextEncoder_encode (js ''K'')) 0 = 0 \<and>
   getUint32 buf_K (0 + int (length (TextEncoder_encode (js ''K'')))) = Inr 2 \<and>
   findClassDefinition buf_K (js ''K'') [js ''v''] 0 = findClassDefinition buf_K (js ''K'') [js ''v''] (0 + 1)"
proof -
  let ?c = "\<lparr>className = js ''K'', memberCount = 1, memberNames = [js ''v''],
               typeTags = [Some 0], primTypes = [Some 8], dataOffset = 18, objectId = 0\<rparr>"
  have f: "findBytes buf_K (TextEncoder_encode (js ''K'')) 0 = 0"
    by (simp add: parser_eval buf_K_def)
  have g: "getUint32 buf_K (0 + int (length (TextEncoder_encode (js ''K'')))) = Inr 2"
    by (simp add: parser_eval buf_K_def)
  have d: "findClassDefinition buf_K (js ''K'') [js ''v''] 0 = Some ?c"
    by (simp add: findClassDefinition_def buf_K_scan)
  from findClassDefinition_field_count [of buf_K "js ''K''" "[js ''v'']" 0 ?c 5 ?c 0]
  show ?thesis
    using buf_K_scan d f g by simp
qed

section \<open>Properties of the back-reference resolver\<close>

lemma findAllClassIdInstances_loop_increasing:
  "\<exists>xs. findAllClassIdInstances_loop data metadataId pos results = results @ xs \<and>
        sorted_wrt (<) xs \<and> (\<forall>x \<in> set xs. pos < x)"
proof (induction data metadataId pos results rule: findAllClassIdInstances_loop.induct)
  case (1 data metadataId pos results)
  show ?case
  proof (cases "findClassIdInstance data metadataId pos")
    case None
    then have "findAllClassIdInstances_loop data metadataId pos results = results @ []"
      by (subst findAllClassIdInstances_loop.simps) simp
    then show ?thesis by force
  next
    case (Some off)
    from "1.IH" [OF Some] obtain ys where
      ys: "findAllClassIdInstances_loop data metadataId off (results @ [off]) = (results @ [off]) @ ys"
        "sorted_wrt (<) ys" "\<forall>x \<in> set ys. off < x"
      by blast
    from Some have lt: "pos < off"
      using findClassIdInstance_bounds by blast
    from Some ys(1) have "findAllClassIdInstances_loop data metadataId pos results = results @ (off # ys)"
      by (subst findAllClassIdInstances_loop.simps) simp
    moreover have "sorted_wrt (<) (off # ys)" using ys by simp
    moreover have "\<forall>x \<in> set (off # ys). pos < x" using ys(3) lt by auto
    ultimately show ?thesis by blast
  qed
qed

text \<open>
  Claim C7. The offsets returned by \<^verbatim>\<open>findAllClassIdInstances\<close> are in non-decreasing
  order and no offset is repeated.
\<close>

theorem findAllClassIdInstances_ordered:
  "sorted (findAllClassIdInstances data metadataId start) \<and>
   distinct (findAllClassIdInstances data metadataId start)"
proof -
  obtain xs where "findAllClassIdInstances data metadataId start = xs" "sorted_wrt (<) xs"
    using findAllClassIdInstances_loop_increasing [of data metadataId start "[]"]
    by (auto simp: findAllClassIdInstances_def)
  then show ?thesis
    by (simp add: strict_sorted_iff)
qed

lemma indexOf_from_first:
  assumes "0 \<le> k" "k \<le> m" "m < int (length data)" "byteAt data m = Some v"
    and "\<forall>i. k \<le> i \<and> i < m \<longrightarrow> byteAt data i \<noteq> Some v"
  shows "indexOf_from data v k = m"
  using assms
proof (induction data v k rule: indexOf_from.induct)
  case (1 data v k)
  show ?case
  proof (cases "k = m")
    case True
    with "1.prems" show ?thesis
      by (subst indexOf_from.simps) simp
  next
    case False
    with "1.prems" have lt: "k < int (length data)" and ne: "byteAt data k \<noteq> Some v" and km: "k < m"
      by auto
    have "indexOf_from data v (k + 1) = m"
      using "1.IH" [OF lt ne] "1.prems" km by simp
    with lt ne show ?thesis
      by (subst indexOf_from.simps) simp
  qed
qed

text \<open>
  Claim C10 (as amended). The bound \<open>pos < data.length - 9\<close> of
  \<^verbatim>\<open>findClassIdInstance\<close> limits the positions from which a search for the marker
  starts, not the position of the marker found: called with a start at or beyond
  \<open>data.length - 9\<close> the result is \<^verbatim>\<open>null\<close>, but a back-reference whose marker stands
  at \<open>data.length - 9\<close> and is the first marker byte at or after a start
  \<open>0 \<le> start < data.length - 9\<close> is returned, as the offset \<open>data.length\<close>.
\<close>

theorem findClassIdInstance_last_marker:
  "(int (length data) - 9 \<le> start \<longrightarrow> findClassIdInstance data metadataId start = None) \<and>
   (0 \<le> start \<and> start < int (length data) - 9 \<and>
    byteAt data (int (length data) - 9) = Some 0x01 \<and>
    (\<forall>i. start \<le> i \<and> i < int (length data) - 9 \<longrightarrow> byteAt data i \<noteq> Some 0x01) \<and>
    getUint32 data (int (length data) - 9 + 5) = Inr metadataId
    \<longrightarrow> findClassIdInstance data metadataId start = Some (int (length data)))"
proof (intro conjI impI)
  assume "int (length data) - 9 \<le> start"
  then show "findClassIdInstance data metadataId start = None"
    by (subst findClassIdInstance.simps) simp
next
  let ?m = "int (length data) - 9"
  assume a: "0 \<le> start \<and> start < ?m \<and> byteAt data ?m = Some 0x01 \<and>
    (\<forall>i. start \<le> i \<and> i < ?m \<longrightarrow> byteAt data i \<noteq> Some 0x01) \<and>
    getUint32 data (?m + 5) = Inr metadataId"
  then have "indexOf_from data 0x01 start = ?m"
    by (intro indexOf_from_first) auto
  with a have "indexOf data 0x01 start = ?m"
    by (auto simp: indexOf_def Let_def)
  with a show "findClassIdInstance data metadataId start = Some (int (length data))"
    by (subst findClassIdInstance.simps) (simp add: Let_def)
qed

text \<open>
  The claim as stated fails: in \<open>buf_ref\<close> the only marker stands at \<open>length - 9 = 1\<close>,
  its id bytes hold 7, and the lookup of id 7 from offset 0 returns offset 10.
\<close>

theorem findClassIdInstance_last_marker_counterexample:
  "int (length buf_ref) - 9 = 1 \<and> byteAt buf_ref 1 = Some 0x01 \<and>
   getUint32 buf_ref (1 + 5) = Inr 7 \<and> indexOf buf_ref 0x01 0 = 1 \<and>
   findClassIdInstance buf_ref 7 0 = Some 10"
  by (simp add: buf_ref_def byteAt_def getUint32_def readLE_def indexOf_def indexOf_from.simps
      findClassIdInstance.simps Let_def)

theorem findClassIdInstance_last_marker_witness:
  "findClassIdInstance buf_ref 7 1 = None \<and> findClassIdInstance buf_ref 7 0 = Some 10"
proof -
  have h: "\<forall>i. 0 \<le> i \<and> i < int (length buf_ref) - 9 \<longrightarrow> byteAt buf_ref i \<noteq> Some 0x01"
  proof (intro allI impI)
    fix i :: int assume "0 \<le> i \<and> i < int (length buf_ref) - 9"
    then have "i = 0" by (simp add: buf_ref_def)
    then show "byteAt buf_ref i \<noteq> Some 0x01" by (simp add: buf_ref_def byteAt_def)
  qed
  have g: "byteAt buf_ref (int (length buf_ref) - 9) = Some 0x01"
    "getUint32 buf_ref (int (length buf_ref) - 9 + 5) = Inr 7"
    by (simp_all add: buf_ref_def byteAt_def getUint32_def readLE_def)
  from findClassIdInstance_last_marker [of buf_ref 1 7]
  have a: "findClassIdInstance buf_ref 7 1 = None" by (simp add: buf_ref_def)
  from findClassIdInstance_last_marker [of buf_ref 0 7] h g
  have b: "findClassIdInstance buf_ref 7 0 = Some 10" by (simp add: buf_ref_def)
  from a b show ?thesis by simp
qed

section \<open>Properties of formatDuration\<close>

subsection \<open>Decimal digits\<close>

lemma decimal_digit: "n < 10 \<Longrightarrow> decimal n = [48 + n]"
  by (subst decimal.simps) simp

lemma decimal_step: "10 \<le> n \<Longrightarrow> decimal n = decimal (n div 10) @ [48 + n mod 10]"
  by (subst decimal.simps) simp

lemma decimal_not_empty: "decimal n \<noteq> []"
  by (subst decimal.simps) simp

lemma decimal_hd: "n \<noteq> 0 \<Longrightarrow> hd (decimal n) \<noteq> 48"
proof (induction n rule: decimal.induct)
  case (1 n)
  show ?case
  proof (cases "n < 10")
    case True
    with "1.prems" show ?thesis by (simp add: decimal_digit)
  next
    case False
    then have "n div 10 \<noteq> 0" by simp
    with "1.IH" False have "hd (decimal (n div 10)) \<noteq> 48" by simp
    with False show ?thesis
      by (simp add: decimal_step decimal_not_empty)
  qed
qed

lemma padStart_decimal:
  assumes "n < 100"
  shows "padStart (decimal n) 2 48 = [48 + n div 10, 48 + n mod 10]"
proof (cases "n < 10")
  case True
  then show ?thesis by (simp add: decimal_digit padStart_def)
next
  case False
  with assms have "n div 10 < 10" by simp
  with False show ?thesis
    by (simp add: decimal_step decimal_digit padStart_def)
qed

subsection \<open>Rounding of the quotients\<close>

lemma bitLength_nonneg: "0 \<le> bitLength n"
  by (induction n rule: bitLength.induct) (subst bitLength.simps, simp)

lemma bitLength_le: "n < 2 ^ k \<Longrightarrow> bitLength n \<le> int k"
proof (induction k arbitrary: n)
  case 0
  then show ?case by (subst bitLength.simps) simp
next
  case (Suc k)
  from Suc.prems have "n div 2 < 2 ^ k" by simp
  then have "bitLength (n div 2) \<le> int k" by (rule Suc.IH)
  then show ?case by (subst bitLength.simps) simp
qed

lemma exponent_le:
  assumes "0 < x" "x < 2 ^ 42"
  shows "exponent x \<le> 41"
proof (cases "1 \<le> x")
  case True
  have "\<lfloor>x\<rfloor> < 2 ^ 42" using assms(2) by (simp add: floor_less_iff)
  then have "nat \<lfloor>x\<rfloor> < 2 ^ 42" using True by (simp add: nat_less_iff)
  then have "bitLength (nat \<lfloor>x\<rfloor>) \<le> int 42" by (rule bitLength_le)
  with True show ?thesis by (simp add: exponent_def)
next
  case False
  have "0 \<le> bitLength (nat (\<lceil>1 / x\<rceil> - 1))" by (rule bitLength_nonneg)
  with False show ?thesis by (simp add: exponent_def)
qed

lemma round_half_even_ge: "\<lfloor>y\<rfloor> \<le> round_half_even y"
  by (simp add: round_half_even_def Let_def)

lemma round_half_even_le: "real_of_int (round_half_even y) \<le> y + 1 / 2"
proof (cases "y - real_of_int \<lfloor>y\<rfloor> < 1 / 2")
  case True
  then have R: "round_half_even y = \<lfloor>y\<rfloor>" by (simp add: round_half_even_def Let_def)
  have "real_of_int \<lfloor>y\<rfloor> \<le> y" by (rule of_int_floor_le)
  then show ?thesis unfolding R by linarith
next
  case False
  have "round_half_even y \<le> \<lfloor>y\<rfloor> + 1" by (simp add: round_half_even_def Let_def)
  then have "real_of_int (round_half_even y) \<le> real_of_int (\<lfloor>y\<rfloor> + 1)"
    by (simp only: of_int_le_iff)
  with False show ?thesis by linarith
qed

lemma binary64_quotient:
  assumes T: "0 \<le> T" and d: "0 < d" "d \<le> 4095" and lt: "T < 2 ^ 42 * d"
  shows "\<exists>q. binary64 (real_of_int T / real_of_int d) = Finite q \<and> \<lfloor>q\<rfloor> = T div d"
proof (cases "T = 0")
  case True
  then show ?thesis by (simp add: binary64_def)
next
  case False
  define x where "x = real_of_int T / real_of_int d"
  define q0 where "q0 = T div d"
  have xpos: "0 < x" using False T d by (simp add: x_def)
  have xlt: "x < 2 ^ 42"
  proof -
    have "real_of_int T < real_of_int (2 ^ 42 * d)" using lt by (simp only: of_int_less_iff)
    then show ?thesis using d by (simp add: x_def pos_divide_less_eq)
  qed
  define e where "e = max (exponent x) (- 1022)"
  have e: "- 1022 \<le> e" "e \<le> 41" using exponent_le [OF xpos xlt] by (simp_all add: e_def)
  define j where "j = nat (52 - e)"
  have j: "11 \<le> j" using e by (simp add: j_def)
  define u where "u = pow2 (e - 52)"
  have u: "u = 1 / 2 ^ j" using e by (simp add: u_def pow2_def j_def)
  define y where "y = x / u"
  have y: "y = x * 2 ^ j" by (simp add: y_def u)
  define R where "R = round_half_even y"
  define r where "r = real_of_int R * u"
  have q0x: "real_of_int q0 \<le> x"
  proof -
    have "0 \<le> T mod d" using d by simp
    moreover have "T = q0 * d + T mod d" by (simp add: q0_def)
    ultimately have "q0 * d \<le> T" by linarith
    then have "real_of_int (q0 * d) \<le> real_of_int T" by (simp only: of_int_le_iff)
    then show ?thesis using d by (simp add: x_def pos_le_divide_eq)
  qed
  have xq0: "x \<le> real_of_int q0 + 1 - 1 / real_of_int d"
  proof -
    have "T mod d < d" using d by simp
    then have "T mod d \<le> d - 1" by simp
    moreover have "T = q0 * d + T mod d" by (simp add: q0_def)
    ultimately have "T \<le> q0 * d + d - 1" by linarith
    then have "real_of_int T \<le> real_of_int (q0 * d + d - 1)" by (simp only: of_int_le_iff)
    moreover have "(real_of_int q0 + 1 - 1 / real_of_int d) * real_of_int d
        = real_of_int (q0 * d + d - 1)"
      using d by (simp add: left_diff_distrib distrib_right)
    ultimately have "real_of_int T \<le> (real_of_int q0 + 1 - 1 / real_of_int d) * real_of_int d"
      by simp
    then show ?thesis using d by (simp add: x_def pos_divide_le_eq)
  qed
  have lower: "real_of_int q0 \<le> r"
  proof -
    have "real_of_int (q0 * 2 ^ j) \<le> y" using q0x by (simp add: y)
    then have "q0 * 2 ^ j \<le> \<lfloor>y\<rfloor>" by (simp add: le_floor_iff)
    also have "\<dots> \<le> R" unfolding R_def by (rule round_half_even_ge)
    finally have "real_of_int (q0 * 2 ^ j) \<le> real_of_int R" by (simp only: of_int_le_iff)
    then show ?thesis by (simp add: r_def u field_simps)
  qed
  have upper: "r < real_of_int q0 + 1"
  proof -
    have p: "(2048 :: real) \<le> 2 ^ j"
    proof -
      have "(2 :: real) ^ 11 \<le> 2 ^ j" using j by (intro power_increasing) simp_all
      then show ?thesis by simp
    qed
    have "1 / real_of_int d \<ge> 1 / 4095" using d by (simp add: frac_le)
    then have "1 / real_of_int d * 2 ^ j \<ge> 1 / 4095 * 2 ^ j"
      by (intro mult_right_mono) simp_all
    moreover have "1 / 4095 * (2 :: real) ^ j > 1 / 2" using p by simp
    ultimately have g: "1 / real_of_int d * 2 ^ j > 1 / 2" by linarith
    have "real_of_int R \<le> y + 1 / 2" unfolding R_def by (rule round_half_even_le)
    moreover have "y \<le> (real_of_int q0 + 1 - 1 / real_of_int d) * 2 ^ j"
      unfolding y using xq0 by (intro mult_right_mono) simp_all
    ultimately have "real_of_int R < (real_of_int q0 + 1) * 2 ^ j"
      using g by (simp add: algebra_simps)
    then show ?thesis by (simp add: r_def u field_simps)
  qed
  have q0lt: "real_of_int q0 + 1 < pow2 1024"
  proof -
    have "real_of_int q0 + 1 < 2 ^ 42 + 1" using q0x xlt by simp
    also have "\<dots> \<le> (2 :: real) ^ 1024" by simp
    finally show ?thesis by (simp add: pow2_def)
  qed
  have fl: "\<lfloor>r\<rfloor> = q0" using lower upper by (simp add: floor_eq_iff)
  have "binary64 x = Finite r"
    using xpos upper q0lt
    by (simp add: binary64_def Let_def e_def [symmetric] u_def [symmetric] y_def [symmetric]
        R_def [symmetric] r_def [symmetric])
  with fl show ?thesis by (auto simp: x_def q0_def)
qed

subsection \<open>The format\<close>

lemma whole_toString_small: "n < 2 ^ 53 \<Longrightarrow> whole_toString n = decimal n"
  by (simp add: whole_toString_def)

lemma js_rem_nat: "0 < d \<Longrightarrow> js_rem (Finite (int t)) (int d) = Finite (int (t mod d))"
  by (cases "t = 0") (simp_all add: zmod_int)

lemma formatDuration_whole_seconds:
  assumes "0 \<le> seconds" "seconds < 2 ^ 53"
  shows "formatDuration (Finite seconds) =
           decimal (nat \<lfloor>seconds\<rfloor> div 3600) @ js '':'' @
           [48 + (nat \<lfloor>seconds\<rfloor> div 60 mod 60) div 10, 48 + (nat \<lfloor>seconds\<rfloor> div 60 mod 60) mod 10]
           @ js '':'' @
           [48 + (nat \<lfloor>seconds\<rfloor> mod 60) div 10, 48 + (nat \<lfloor>seconds\<rfloor> mod 60) mod 10]"
proof -
  define t where "t = nat \<lfloor>seconds\<rfloor>"
  from assms(1) have tot: "\<lfloor>seconds\<rfloor> = int t" by (simp add: t_def)
  have "\<lfloor>seconds\<rfloor> < 2 ^ 53" using assms(2) by (simp add: floor_less_iff)
  then have t: "t < 2 ^ 53" by (simp add: tot flip: of_nat_less_iff)
  have total: "Math_floor (Finite seconds) = Finite (int t)" by (simp add: tot)
  obtain q where q: "binary64 (real_of_int (int t) / real_of_int 3600) = Finite q"
      "\<lfloor>q\<rfloor> = int t div 3600"
    using binary64_quotient [of "int t" 3600] t by auto
  have h: "Math_floor (js_div (Finite (int t)) 3600) = Finite (int (t div 3600))"
    using q by (simp add: zdiv_int)
  have r: "js_rem (Finite (int t)) 3600 = Finite (int (t mod 3600))"
    using js_rem_nat [of 3600 t] by simp
  obtain q' where q': "binary64 (real_of_int (int (t mod 3600)) / real_of_int 60) = Finite q'"
      "\<lfloor>q'\<rfloor> = int (t mod 3600) div 60"
  proof -
    have "t mod 3600 < 3600" by simp
    then have "int (t mod 3600) < 2 ^ 42 * 60" by simp
    then show ?thesis
      using binary64_quotient [of "int (t mod 3600)" 60] that by auto
  qed
  have m': "t mod 3600 div 60 = t div 60 mod 60"
    using mod_mult2_eq [of t 60 60] by simp
  have m: "Math_floor (js_div (Finite (int (t mod 3600))) 60) = Finite (int (t div 60 mod 60))"
  proof -
    have "int (t mod 3600) div 60 = int (t mod 3600 div 60)" by (simp add: zdiv_int)
    with q' show ?thesis by (simp add: m')
  qed
  have s: "js_rem (Finite (int t)) 60 = Finite (int (t mod 60))"
    using js_rem_nat [of 60 t] by simp
  have lt: "t div 60 mod 60 < 100" "t mod 60 < 100"
    by (simp_all add: less_trans [OF mod_less_divisor])
  have "t div 3600 \<le> t" by (rule div_le_dividend)
  with t have small: "t div 3600 < 2 ^ 53" "t div 60 mod 60 < 2 ^ 53" "t mod 60 < 2 ^ 53"
    by (simp_all add: less_trans [OF lt(1)] less_trans [OF lt(2)])
  show ?thesis
    unfolding formatDuration_def total Let_def h r m s t_def [symmetric]
    by (simp add: whole_toString_small [OF small(1)] whole_toString_small [OF small(2)]
        whole_toString_small [OF small(3)] padStart_decimal [OF lt(1)] padStart_decimal [OF lt(2)])
qed

text \<open>
  Claim C8 (as amended). For a number of seconds from 0 to below \<open>2\<^sup>5\<^sup>3\<close>,
  \<^verbatim>\<open>formatDuration\<close> formats the whole seconds \<open>t = \<lfloor>seconds\<rfloor>\<close> as the decimal digits of
  the hours \<open>t div 3600\<close> (no leading zero), a colon, the two digits of the minutes
  \<open>t div 60 mod 60\<close>, a colon and the two digits of the seconds \<open>t mod 60\<close>. 125.4 seconds
  give \<^verbatim>\<open>0:02:05\<close> and 3661.0 seconds give \<^verbatim>\<open>1:01:01\<close>.
\<close>

theorem formatDuration_hms:
  "(0 \<le> seconds \<and> seconds < 2 ^ 53 \<longrightarrow>
      formatDuration (Finite seconds) =
        decimal (nat \<lfloor>seconds\<rfloor> div 3600) @ js '':'' @
        [48 + (nat \<lfloor>seconds\<rfloor> div 60 mod 60) div 10, 48 + (nat \<lfloor>seconds\<rfloor> div 60 mod 60) mod 10]
        @ js '':'' @
        [48 + (nat \<lfloor>seconds\<rfloor> mod 60) div 10, 48 + (nat \<lfloor>seconds\<rfloor> mod 60) mod 10] \<and>
      (nat \<lfloor>seconds\<rfloor> div 3600 \<noteq> 0 \<longrightarrow> hd (decimal (nat \<lfloor>seconds\<rfloor> div 3600)) \<noteq> 48)) \<and>
   formatDuration (Finite 125.4) = js ''0:02:05'' \<and>
   formatDuration (Finite 3661.0) = js ''1:01:01''"
proof (intro conjI impI)
  assume "0 \<le> seconds \<and> seconds < 2 ^ 53"
  then show "formatDuration (Finite seconds) =
        decimal (nat \<lfloor>seconds\<rfloor> div 3600) @ js '':'' @
        [48 + (nat \<lfloor>seconds\<rfloor> div 60 mod 60) div 10, 48 + (nat \<lfloor>seconds\<rfloor> div 60 mod 60) mod 10]
        @ js '':'' @
        [48 + (nat \<lfloor>seconds\<rfloor> mod 60) div 10, 48 + (nat \<lfloor>seconds\<rfloor> mod 60) mod 10]"
    by (simp add: formatDuration_whole_seconds)
next
  assume "nat \<lfloor>seconds\<rfloor> div 3600 \<noteq> 0"
  then show "hd (decimal (nat \<lfloor>seconds\<rfloor> div 3600)) \<noteq> 48"
    by (rule decimal_hd)
next
  have "\<lfloor>125.4 :: real\<rfloor> = 125" by linarith
  then show "formatDuration (Finite 125.4) = js ''0:02:05''"
    using formatDuration_whole_seconds [of "125.4"] by (simp add: decimal_digit js_def)
next
  have "\<lfloor>3661.0 :: real\<rfloor> = 3661" by linarith
  then show "formatDuration (Finite 3661.0) = js ''1:01:01''"
    using formatDuration_whole_seconds [of "3661.0"] by (simp add: decimal_digit js_def)
qed

theorem formatDuration_hms_witness:
  "formatDuration (Finite 7384.9) = js ''2:03:04'' \<and> hd (decimal 2) \<noteq> 48"
proof -
  have f: "\<lfloor>7384.9 :: real\<rfloor> = 7384" by linarith
  from formatDuration_hms [of "7384.9"] show ?thesis
    by (simp add: f decimal_digit js_def)
qed

text \<open>
  The claim as stated, for every non-negative number, fails. The quotient of the
  division by 3600 is rounded to 53 bits, and for \<open>10\<^sup>1\<^sup>9\<close> seconds it is rounded up to the
  next whole number: the hours printed are one more than the hours of the truncated
  seconds. The same happens for 267823440340189184 seconds, which is a binary32 number
  (bit pattern \<^verbatim>\<open>0x5C6DE000\<close>) that \<^verbatim>\<open>extractSessionTime\<close> can read. For an infinite number
  of seconds the result is not of the form \<^verbatim>\<open>H:MM:SS\<close>.
\<close>

theorem formatDuration_hms_counterexample:
  "formatDuration (Finite 10000000000000000000) = js ''2777777777777778:46:40'' \<and>
   decimal (nat \<lfloor>10000000000000000000 :: real\<rfloor> div 3600) = js ''2777777777777777'' \<and>
   formatDuration (Finite 267823440340189184) = js ''74395400094497:59:44'' \<and>
   decimal (nat \<lfloor>267823440340189184 :: real\<rfloor> div 3600) = js ''74395400094496'' \<and>
   formatDuration PosInfinity = js ''Infinity:NaN:NaN''"
  by (simp add: binary64_def exponent_def pow2_def round_half_even_def bitLength.simps Let_def
      whole_toString_def padStart_def decimal.simps js_def formatDuration_def
      cong: let_weak_cong)

section \<open>Properties of the header decoder\<close>

lemma DIFFICULTY_NAMES_cases:
  "DIFFICULTY_NAMES i =
     (if i = 0 then Some (js ''Easy'') else if i = 1 then Some (js ''Normal'')
      else if i = 2 then Some (js ''Hard'') else if i = 3 then Some (js ''Brutal'')
      else if i = 4 then Some (js ''Impossible'') else None)"
  by (simp add: DIFFICULTY_NAMES_def)

lemma extractHeader_name:
  assumes "extractHeader datData = Inr (Some h)"
  shows "difficultyName h =
           (case DIFFICULTY_NAMES (difficultyId h) of
              Some n \<Rightarrow> if n \<noteq> [] then n else js ''Unknown('' @ String_int (difficultyId h) @ js '')''
            | None \<Rightarrow> js ''Unknown('' @ String_int (difficultyId h) @ js '')'')"
  using assms
  by (auto simp: extractHeader_def Let_def split: option.splits sum.splits)

text \<open>
  Claim C9. For every decoded header, a difficulty id in \<open>{0, 1, 2, 3, 4}\<close> gives the
  entry of the table Easy, Normal, Hard, Brutal, Impossible, and every other id gives
  the string \<^verbatim>\<open>Unknown(<id>)\<close> with the decimal form of the decoded integer.
\<close>

theorem extractHeader_difficultyName:
  assumes "extractHeader datData = Inr (Some h)"
  shows "(difficultyId h \<in> {0, 1, 2, 3, 4} \<longrightarrow>
            difficultyName h =
              [js ''Easy'', js ''Normal'', js ''Hard'', js ''Brutal'', js ''Impossible'']
                ! nat (difficultyId h)) \<and>
         (difficultyId h \<notin> {0, 1, 2, 3, 4} \<longrightarrow>
            difficultyName h = js ''Unknown('' @ String_int (difficultyId h) @ js '')'')"
proof (intro conjI impI)
  assume "difficultyId h \<in> {0, 1, 2, 3, 4}"
  then consider "difficultyId h = 0" | "difficultyId h = 1" | "difficultyId h = 2"
    | "difficultyId h = 3" | "difficultyId h = 4" by auto
  then show "difficultyName h =
      [js ''Easy'', js ''Normal'', js ''Hard'', js ''Brutal'', js ''Impossible'']
        ! nat (difficultyId h)"
    by cases (simp_all add: extractHeader_name [OF assms] DIFFICULTY_NAMES_cases js_def)
next
  assume "difficultyId h \<notin> {0, 1, 2, 3, 4}"
  then show "difficultyName h = js ''Unknown('' @ String_int (difficultyId h) @ js '')''"
    by (simp add: extractHeader_name [OF assms] DIFFICULTY_NAMES_cases)
qed

lemma buf_header_located:
  "findClassDefinition buf_header (js ''ProfileSaveHeader'') extractHeader_expected 0
     = Some buf_header_cdef"
  by (simp add: buf_header_def buf_header_head_def buf_header_cdef_def extractHeader_expected_def
      parser_eval cong: let_weak_cong prod.case_cong_weak)

lemma buf_header_hard_located:
  "findClassDefinition buf_header_hard (js ''ProfileSaveHeader'') extractHeader_expected 0
     = Some buf_header_cdef"
  by (simp add: buf_header_hard_def buf_header_head_def buf_header_cdef_def
      extractHeader_expected_def parser_eval cong: let_weak_cong prod.case_cong_weak)

lemmas header_eval =
  buf_header_head_def buf_header_cdef_def TextEncoder_encode_def utf8_encode_cp_def js_def
  getInt32_def readLE_def toSigned_def DIFFICULTY_NAMES_cases String_int_def decimal.simps

lemma buf_header_result:
  "extractHeader buf_header =
     Inr (Some \<lparr>saveVersion = 3, missionId = 5, missionIdName = None, difficultyId = 7,
                 difficultyName = js ''Unknown(7)''\<rparr>)"
  by (simp add: extractHeader_def buf_header_located Let_def)
     (simp add: buf_header_def header_eval)

lemma buf_header_hard_result:
  "extractHeader buf_header_hard =
     Inr (Some \<lparr>saveVersion = 3, missionId = 5, missionIdName = None, difficultyId = 2,
                 difficultyName = js ''Hard''\<rparr>)"
  by (simp add: extractHeader_def buf_header_hard_located Let_def)
     (simp add: buf_header_hard_def header_eval)

theorem extractHeader_difficultyName_witness:
  "extractHeader buf_header =
     Inr (Some \<lparr>saveVersion = 3, missionId = 5, missionIdName = None, difficultyId = 7,
                 difficultyName = js ''Unknown(7)''\<rparr>) \<and>
   js ''Unknown(7)'' = js ''Unknown('' @ String_int 7 @ js '')'' \<and>
   extractHeader buf_header_hard =
     Inr (Some \<lparr>saveVersion = 3, missionId = 5, missionIdName = None, difficultyId = 2,
                 difficultyName = js ''Hard''\<rparr>) \<and>
   js ''Hard'' = [js ''Easy'', js ''Normal'', js ''Hard'', js ''Brutal'', js ''Impossible''] ! 2"
  using extractHeader_difficultyName [OF buf_header_result]
    extractHeader_difficultyName [OF buf_header_hard_result]
    buf_header_result buf_header_hard_result
  by simp

section \<open>Properties of the achievements decoder\<close>

lemma readTypeTags_length:
  "length (fst (readTypeTags data mc i tags offset)) = length tags + (mc - i)"
proof (induction data mc i tags offset rule: readTypeTags.induct)
  case (1 data mc i tags offset)
  show ?case
  proof (cases "i < mc")
    case True
    with "1.IH" show ?thesis
      by (subst readTypeTags.simps) simp
  next
    case False
    then show ?thesis
      by (subst readTypeTags.simps) simp
  qed
qed

lemma readTypeInfo_length:
  "length (fst (readTypeInfo data mc tags i prims offset)) = length prims"
proof (induction data mc tags i prims offset rule: readTypeInfo.induct)
  case (1 data mc tags i prims offset)
  show ?case
  proof (cases "i < mc")
    case True
    with "1.IH" show ?thesis
      by (subst readTypeInfo.simps) (simp add: Let_def)
  next
    case False
    then show ?thesis
      by (subst readTypeInfo.simps) simp
  qed
qed

lemma parseCandidate_lengths:
  assumes "parseCandidate data name expectedFields p = Inr (Some cdef)"
  shows "length (typeTags cdef) = length expectedFields \<and>
         length (primTypes cdef) = length expectedFields"
proof -
  let ?after = "p + int (length (TextEncoder_encode name))"
  let ?mc = "length expectedFields"
  obtain members offset1 where m: "readMemberNames data ?mc 0 [] (?after + 4) = (members, offset1)"
    by (cases "readMemberNames data ?mc 0 [] (?after + 4)")
  obtain tags offset2 where t: "readTypeTags data ?mc 0 [] offset1 = (tags, offset2)"
    by (cases "readTypeTags data ?mc 0 [] offset1")
  obtain prims offset3 where
    i: "readTypeInfo data ?mc tags 0 (replicate ?mc (Some 0)) offset2 = (prims, offset3)"
    by (cases "readTypeInfo data ?mc tags 0 (replicate ?mc (Some 0)) offset2")
  from assms m t i have "typeTags cdef = tags" "primTypes cdef = prims"
    by (auto simp: parseCandidate_def Let_def split: sum.splits if_splits)
  moreover from readTypeTags_length [of data ?mc 0 "[]" offset1] t have "length tags = ?mc"
    by simp
  moreover from readTypeInfo_length [of data ?mc tags 0 "replicate ?mc (Some 0)" offset2] i
  have "length prims = ?mc" by simp
  ultimately show ?thesis by simp
qed

lemma findClassDefinition_lengths:
  assumes "findClassDefinition data name expectedFields start = Some cdef"
  shows "length (typeTags cdef) = length expectedFields \<and>
         length (primTypes cdef) = length expectedFields"
proof -
  from assms obtain q where "findClassDefinition_scan data name expectedFields start = Some (q, cdef)"
    by (auto simp: findClassDefinition_def)
  then show ?thesis
    using findClassDefinition_scan_accept parseCandidate_lengths by blast
qed


lemma elemAt_nth: "i < length xs \<Longrightarrow> elemAt xs i = xs ! i"
  by (simp add: elemAt_def)

lemma extractAchievements_loop_prefix:
  assumes "length (typeTags cdef) = length expected" "length (primTypes cdef) = length expected"
  shows "extractAchievements_loop data cdef expected i offset result =
           readFields data
             (zip (take (length (takeWhile (\<lambda>t. t = Some TAG_PRIMITIVE) (drop i (typeTags cdef))))
                     (drop i expected))
                  (drop i (primTypes cdef)))
             offset result"
  using assms
proof (induction data cdef expected i offset result rule: extractAchievements_loop.induct)
  case (1 data cdef expected i offset result)
  show ?case
  proof (cases "i < length expected")
    case False
    then show ?thesis
      by (subst extractAchievements_loop.simps) simp
  next
    case True
    with "1.prems" have it: "i < length (typeTags cdef)" and ip: "i < length (primTypes cdef)"
      by simp_all
    have dt: "drop i (typeTags cdef) = typeTags cdef ! i # drop (Suc i) (typeTags cdef)"
      using it by (simp add: Cons_nth_drop_Suc)
    have de: "drop i expected = expected ! i # drop (Suc i) expected"
      using True by (simp add: Cons_nth_drop_Suc)
    have dp: "drop i (primTypes cdef) = primTypes cdef ! i # drop (Suc i) (primTypes cdef)"
      using ip by (simp add: Cons_nth_drop_Suc)
    show ?thesis
    proof (cases "typeTags cdef ! i = Some TAG_PRIMITIVE")
      case False
      with True it show ?thesis
        by (subst extractAchievements_loop.simps) (simp add: elemAt_nth dt)
    next
      case tag: True
      show ?thesis
      proof (cases "readPrimitive data offset (primTypes cdef ! i)")
        case (Inl e)
        with True tag it ip show ?thesis
          by (subst extractAchievements_loop.simps) (simp add: elemAt_nth dt de dp)
      next
        case (Inr r)
        have ne: "\<not> elemAt (typeTags cdef) i \<noteq> Some TAG_PRIMITIVE"
          using tag it by (simp add: elemAt_nth)
        have rp: "readPrimitive data offset (elemAt (primTypes cdef) i) = Inr r"
          using Inr ip by (simp add: elemAt_nth)
        from "1.IH" [OF True ne rp "1.prems"] Inr True tag it ip show ?thesis
          by (subst extractAchievements_loop.simps) (simp add: elemAt_nth dt de dp)
      qed
    qed
  qed
qed

lemma obj_update_fresh: "k \<notin> fst ` set obj \<Longrightarrow> obj_update obj k v = obj @ [(k, v)]"
  by (induction obj) auto

lemma readFields_keys:
  assumes "readFields data fs offset acc = Inr result"
    and "distinct (map fst acc @ map fst fs)" and "js ''__proto__'' \<notin> fst ` set fs"
  shows "map fst result = map fst acc @ map fst fs"
  using assms
proof (induction fs arbitrary: offset acc)
  case Nil
  then show ?case by simp
next
  case (Cons f fs)
  obtain name prim where f: "f = (name, prim)" by (cases f)
  from Cons.prems(1) f obtain r where
    r: "readPrimitive data offset prim = Inr r"
    and rest: "readFields data fs (poffset r) (obj_set acc name (pvalue r)) = Inr result"
    by (auto split: sum.splits)
  from Cons.prems(2,3) f have fresh: "name \<notin> fst ` set acc" and np: "name \<noteq> js ''__proto__''"
    by auto
  then have s: "obj_set acc name (pvalue r) = acc @ [(name, pvalue r)]"
    by (simp add: obj_set_def obj_update_fresh)
  from Cons.prems(2,3) f have "distinct (map fst (acc @ [(name, pvalue r)]) @ map fst fs)"
    and "js ''__proto__'' \<notin> fst ` set fs" by auto
  with Cons.IH [of "poffset r" "acc @ [(name, pvalue r)]"] rest s f show ?case
    by simp
qed

text \<open>
  Claim C5 (as amended). For every located \<^verbatim>\<open>AchievementsSaveData\<close> definition the
  decoder reads, in order, exactly the fields of the longest prefix of the schema
  whose wire tags are all Primitive: its outcome is that of \<open>readFields\<close> on that
  prefix, so the first field with another tag and all fields after it are never
  read. When each of these reads succeeds the result has exactly the fields of the
  prefix, in schema order; when one of them throws, the decoder throws and there is
  no result.
\<close>

theorem extractAchievements_primitive_prefix:
  assumes "findClassDefinition data (js ''AchievementsSaveData'') extractAchievements_expected 0
             = Some cdef"
  shows "extractAchievements data =
           map_sum id Some
             (readFields data
                (zip (take (primitivePrefix cdef) extractAchievements_expected) (primTypes cdef))
                (dataOffset cdef) []) \<and>
         (\<forall>result. extractAchievements data = Inr (Some result) \<longrightarrow>
            map fst result = take (primitivePrefix cdef) extractAchievements_expected)"
proof -
  from findClassDefinition_lengths [OF assms]
  have lt: "length (typeTags cdef) = length extractAchievements_expected"
    and lp: "length (primTypes cdef) = length extractAchievements_expected" by simp_all
  let ?fs = "zip (take (primitivePrefix cdef) extractAchievements_expected) (primTypes cdef)"
  have eq: "extractAchievements data = map_sum id Some (readFields data ?fs (dataOffset cdef) [])"
    using extractAchievements_loop_prefix [OF lt lp, of data 0 "dataOffset cdef" "[]"] assms
    by (simp add: extractAchievements_def primitivePrefix_def)
  have "primitivePrefix cdef \<le> length (primTypes cdef)"
    using lt lp length_takeWhile_le [of "\<lambda>t. t = Some TAG_PRIMITIVE" "typeTags cdef"]
    by (simp add: primitivePrefix_def)
  then have keys: "map fst ?fs = take (primitivePrefix cdef) extractAchievements_expected"
    by (simp add: map_fst_zip_take min_def)
  have d: "distinct extractAchievements_expected"
    by (simp add: extractAchievements_expected_def js_def)
  have np: "js ''__proto__'' \<notin> set extractAchievements_expected"
    by (simp add: extractAchievements_expected_def js_def)
  have "map fst result = take (primitivePrefix cdef) extractAchievements_expected"
    if "extractAchievements data = Inr (Some result)" for result
  proof -
    from that eq have rf: "readFields data ?fs (dataOffset cdef) [] = Inr result"
      by (cases "readFields data ?fs (dataOffset cdef) []") simp_all
    have "distinct (map fst [] @ map fst ?fs)"
      using d by (simp add: keys)
    moreover have "js ''__proto__'' \<notin> fst ` set ?fs"
      using np keys by (metis in_set_takeD list.set_map)
    ultimately show ?thesis
      using readFields_keys [OF rf] keys by simp
  qed
  with eq show ?thesis by blast
qed

lemma buf_ach_located:
  "findClassDefinition buf_ach (js ''AchievementsSaveData'') extractAchievements_expected 0
     = Some buf_ach_cdef"
  by (simp add: buf_ach_def buf_ach_head_def buf_ach_cdef_def extractAchievements_expected_def
      parser_eval cong: let_weak_cong prod.case_cong_weak)

lemma buf_ach_cut_located:
  "findClassDefinition buf_ach_cut (js ''AchievementsSaveData'') extractAchievements_expected 0
     = Some buf_ach_cdef"
  by (simp add: buf_ach_cut_def buf_ach_head_def buf_ach_cdef_def extractAchievements_expected_def
      parser_eval cong: let_weak_cong prod.case_cong_weak)

lemmas decoder_eval =
  extractAchievements_def extractAchievements_loop.simps elemAt_def obj_set_def
  readPrimitive_def getInt16_def getInt32_def getBigInt64_def getFloat32_def getFloat64_def
  readLE_def toSigned_def byteAt_def js_def
  TAG_PRIMITIVE_def PRIM_BOOLEAN_def PRIM_BYTE_def PRIM_INT16_def PRIM_INT32_def PRIM_INT64_def
  PRIM_SINGLE_def PRIM_DOUBLE_def

lemma buf_ach_result:
  "extractAchievements buf_ach =
     Inr (Some [(js ''gatheredGold'', JSNumber 100), (js ''lastGold'', JSNumber 50),
                (js ''siegeMachineWasTrained'', JSBoolean True),
                (js ''powerUndeadUnitsWasTrained'', JSBoolean False),
                (js ''portsDestroyed'', JSNumber 2), (js ''marketPartsDestroyed'', JSNumber 3)])"
  unfolding extractAchievements_def buf_ach_located
  by (simp add: buf_ach_cdef_def buf_ach_def buf_ach_head_def extractAchievements_expected_def
      TextEncoder_encode_def utf8_encode_cp_def decoder_eval)

lemma buf_ach_cut_result: "extractAchievements buf_ach_cut = Inl RangeError"
  unfolding extractAchievements_def buf_ach_cut_located
  by (simp add: buf_ach_cdef_def buf_ach_cut_def buf_ach_head_def extractAchievements_expected_def
      TextEncoder_encode_def utf8_encode_cp_def decoder_eval)

lemma buf_ach_prefix: "primitivePrefix buf_ach_cdef = 6"
  by (simp add: primitivePrefix_def buf_ach_cdef_def TAG_PRIMITIVE_def)

theorem extractAchievements_primitive_prefix_witness:
  "findClassDefinition buf_ach (js ''AchievementsSaveData'') extractAchievements_expected 0
     = Some buf_ach_cdef \<and>
   primitivePrefix buf_ach_cdef = 6 \<and>
   extractAchievements buf_ach =
     Inr (Some [(js ''gatheredGold'', JSNumber 100), (js ''lastGold'', JSNumber 50),
                (js ''siegeMachineWasTrained'', JSBoolean True),
                (js ''powerUndeadUnitsWasTrained'', JSBoolean False),
                (js ''portsDestroyed'', JSNumber 2), (js ''marketPartsDestroyed'', JSNumber 3)]) \<and>
   map fst [(js ''gatheredGold'', JSNumber 100), (js ''lastGold'', JSNumber 50),
            (js ''siegeMachineWasTrained'', JSBoolean True),
            (js ''powerUndeadUnitsWasTrained'', JSBoolean False),
            (js ''portsDestroyed'', JSNumber 2), (js ''marketPartsDestroyed'', JSNumber 3)]
     = take 6 extractAchievements_expected"
  using extractAchievements_primitive_prefix [OF buf_ach_located] buf_ach_located buf_ach_result
    buf_ach_prefix
  by simp

text \<open>
  The claim as stated fails: in \<open>buf_ach_cut\<close> the definition is located and its first
  six tags are Primitive, but the buffer ends inside the second value; the decoder
  throws a \<^verbatim>\<open>RangeError\<close> and produces no field.
\<close>

theorem extractAchievements_primitive_prefix_counterexample:
  "findClassDefinition buf_ach_cut (js ''AchievementsSaveData'') extractAchievements_expected 0
     = Some buf_ach_cdef \<and>
   primitivePrefix buf_ach_cdef = 6 \<and>
   extractAchievements buf_ach_cut = Inl RangeError"
  using buf_ach_cut_located buf_ach_cut_result buf_ach_prefix by simp

section \<open>Properties of the wave decoder\<close>

lemma decodedWaves_empty:
  assumes "readWaveFields data (dataOffset cdef) cdef = None"
    and "objectId cdef \<noteq> 0 \<longrightarrow>
           (\<forall>off \<in> set (findAllClassIdInstances data (objectId cdef) (dataOffset cdef)).
              readWaveFields data off cdef = None)"
  shows "decodedWaves data cdef = []"
proof (cases "objectId cdef = 0")
  case True
  with assms(1) show ?thesis by (simp add: decodedWaves_def)
next
  case False
  with assms(2) have
    "List.map_filter (\<lambda>cidOffset. readWaveFields data cidOffset cdef)
       (findAllClassIdInstances data (objectId cdef) (dataOffset cdef)) = []"
    by (simp add: map_filter_def filter_empty_conv)
  with assms(1) False show ?thesis by (simp add: decodedWaves_def)
qed

text \<open>
  Claim C6. When no wave instance decodes, the wave decoder returns \<^verbatim>\<open>null\<close>: when the
  \<^verbatim>\<open>WaveHolderSaveData\<close> schema is not found, and when it is found but
  \<^verbatim>\<open>readWaveFields\<close> returns \<^verbatim>\<open>null\<close> at the data offset and at every back-reference.
  A summary that is returned never has \<open>total = 0\<close>: \<open>total\<close> is the number of decoded
  waves and is positive.
\<close>

theorem extractWaves_never_empty:
  "(findClassDefinition data (js ''WaveHolderSaveData'') extractWaves_expected 0 = None
      \<longrightarrow> extractWaves data = None) \<and>
   (findClassDefinition data (js ''WaveHolderSaveData'') extractWaves_expected 0 = Some cdef \<and>
    readWaveFields data (dataOffset cdef) cdef = None \<and>
    (objectId cdef \<noteq> 0 \<longrightarrow>
       (\<forall>off \<in> set (findAllClassIdInstances data (objectId cdef) (dataOffset cdef)).
          readWaveFields data off cdef = None))
      \<longrightarrow> extractWaves data = None) \<and>
   (extractWaves data = Some summary \<longrightarrow>
      0 < total summary \<and> total summary = length (details summary))"
proof (intro conjI impI)
  assume "findClassDefinition data (js ''WaveHolderSaveData'') extractWaves_expected 0 = None"
  then show "extractWaves data = None"
    by (simp add: extractWaves_def)
next
  assume a: "findClassDefinition data (js ''WaveHolderSaveData'') extractWaves_expected 0 = Some cdef \<and>
    readWaveFields data (dataOffset cdef) cdef = None \<and>
    (objectId cdef \<noteq> 0 \<longrightarrow>
       (\<forall>off \<in> set (findAllClassIdInstances data (objectId cdef) (dataOffset cdef)).
          readWaveFields data off cdef = None))"
  then have "decodedWaves data cdef = []"
    using decodedWaves_empty by blast
  with a show "extractWaves data = None"
    by (simp add: extractWaves_def)
next
  assume "extractWaves data = Some summary"
  then show "0 < total summary" and "total summary = length (details summary)"
    by (auto simp: extractWaves_def Let_def split: option.splits if_splits)
qed

lemma buf_waves_located:
  "findClassDefinition buf_waves (js ''WaveHolderSaveData'') extractWaves_expected 0
     = Some buf_waves_cdef"
  by (simp add: buf_waves_def buf_wave_head_def buf_waves_cdef_def extractWaves_expected_def
      parser_eval cong: let_weak_cong prod.case_cong_weak)

lemma buf_waves_cut_located:
  "findClassDefinition buf_waves_cut (js ''WaveHolderSaveData'') extractWaves_expected 0
     = Some buf_waves_cdef"
  by (simp add: buf_waves_cut_def buf_wave_head_def buf_waves_cdef_def extractWaves_expected_def
      parser_eval cong: let_weak_cong prod.case_cong_weak)

lemmas wave_eval =
  readWaveFields_def readWaveFields_loop.simps elemAt_def obj_set_def obj_truthy_def
  readPrimitive_def getInt16_def getInt32_def getBigInt64_def getFloat32_def getFloat64_def
  getUint32_def readLE_def toSigned_def byteAt_def js_def
  TAG_PRIMITIVE_def PRIM_BOOLEAN_def PRIM_BYTE_def PRIM_INT16_def PRIM_INT32_def PRIM_INT64_def
  PRIM_SINGLE_def PRIM_DOUBLE_def
  findAllClassIdInstances_def findAllClassIdInstances_loop.simps findClassIdInstance.simps
  indexOf_def indexOf_from.simps decodedWaves_def map_filter_def Let_def
  TextEncoder_encode_def utf8_encode_cp_def

lemma buf_waves_refs: "findAllClassIdInstances buf_waves 7 103 = [124]"
  by (simp add: buf_waves_def buf_wave_head_def wave_eval cong: let_weak_cong)

lemma buf_waves_cut_refs: "findAllClassIdInstances buf_waves_cut 7 103 = []"
  by (simp add: buf_waves_cut_def buf_wave_head_def wave_eval cong: let_weak_cong)

lemma buf_waves_first:
  "readWaveFields buf_waves 103 buf_waves_cdef =
     Some [(js ''referenceId'', JSNumber 10), (js ''waveId'', JSNumber 1),
           (js ''mapped'', JSBoolean True), (js ''fullySpawned'', JSBoolean True),
           (js ''waveDestroyed'', JSBoolean True), (js ''major'', JSBoolean True)]"
  by (simp add: buf_waves_def buf_wave_head_def buf_waves_cdef_def extractWaves_expected_def
      wave_eval)

lemma buf_waves_second:
  "readWaveFields buf_waves 124 buf_waves_cdef =
     Some [(js ''referenceId'', JSNumber 11), (js ''waveId'', JSNumber 2),
           (js ''mapped'', JSBoolean True), (js ''fullySpawned'', JSBoolean True),
           (js ''waveDestroyed'', JSBoolean False), (js ''major'', JSBoolean False)]"
  by (simp add: buf_waves_def buf_wave_head_def buf_waves_cdef_def extractWaves_expected_def
      wave_eval)

lemma buf_waves_cut_first: "readWaveFields buf_waves_cut 103 buf_waves_cdef = None"
  by (simp add: buf_waves_cut_def buf_wave_head_def buf_waves_cdef_def extractWaves_expected_def
      wave_eval)

lemma buf_waves_result:
  "extractWaves buf_waves =
     Some \<lparr>total = 2, destroyed = 1, majorWaves = 1,
           details =
             [[(js ''referenceId'', JSNumber 10), (js ''waveId'', JSNumber 1),
               (js ''mapped'', JSBoolean True), (js ''fullySpawned'', JSBoolean True),
               (js ''waveDestroyed'', JSBoolean True), (js ''major'', JSBoolean True)],
              [(js ''referenceId'', JSNumber 11), (js ''waveId'', JSNumber 2),
               (js ''mapped'', JSBoolean True), (js ''fullySpawned'', JSBoolean True),
               (js ''waveDestroyed'', JSBoolean False), (js ''major'', JSBoolean False)]]\<rparr>"
  unfolding extractWaves_def buf_waves_located
  by (simp add: decodedWaves_def map_filter_def buf_waves_cdef_def [THEN arg_cong, of dataOffset]
      buf_waves_cdef_def [THEN arg_cong, of objectId] buf_waves_refs buf_waves_first
      buf_waves_second obj_truthy_def js_def)

theorem extractWaves_never_empty_witness:
  "extractWaves [] = None \<and> extractWaves buf_waves_cut = None \<and>
   extractWaves buf_waves \<noteq> None \<and> 0 < total (the (extractWaves buf_waves))"
proof -
  have n: "findClassDefinition [] (js ''WaveHolderSaveData'') extractWaves_expected 0 = None"
    by (simp add: findClassDefinition_def findClassDefinition_scan.simps findBytes.simps
        TextEncoder_encode_def utf8_encode_cp_def js_def)
  from extractWaves_never_empty [of "[]"] n have a: "extractWaves [] = None"
    by simp
  have "dataOffset buf_waves_cdef = 103" "objectId buf_waves_cdef = 7"
    by (simp_all add: buf_waves_cdef_def)
  with extractWaves_never_empty [of buf_waves_cut buf_waves_cdef]
    buf_waves_cut_located buf_waves_cut_first buf_waves_cut_refs
  have b: "extractWaves buf_waves_cut = None"
    by simp
  from extractWaves_never_empty [of buf_waves _ "the (extractWaves buf_waves)"] buf_waves_result
  have c: "0 < total (the (extractWaves buf_waves))"
    by simp
  from a b c buf_waves_result show ?thesis by simp
qed

section \<open>Properties of the orchestrator\<close>

lemma attempt_decoded: "attempt tag r errs = (decoded r, errs @ thrown tag r)"
  by (cases r) (simp_all add: attempt_def decoded_def thrown_def)

lemma decoded_None: "decoded r = None \<longleftrightarrow> r = Inr None \<or> (\<exists>e. r = Inl e)"
  by (cases r) (auto simp: decoded_def)

lemma parseSaveFiles_eq:
  "parseSaveFiles saveFile datFile =
    (case Date_toISOString (file_lastModified saveFile) of
       Inl e \<Rightarrow> Inl e
     | Inr modified \<Rightarrow>
         Inr \<lparr>fileName = file_name saveFile, fileSize = file_size saveFile,
            lastModified = modified,
            statistics =
              \<lparr>enemiesKilled = decoded (extractKilledEnemies (file_bytes saveFile)),
               sessionTime = decoded (extractSessionTime (file_bytes saveFile)),
               resources = decoded (extractResources (file_bytes saveFile)),
               undeadResources = decoded (extractUndeadResources (file_bytes saveFile)),
               achievements = decoded (extractAchievements (file_bytes saveFile)),
               waves = extractWaves (file_bytes saveFile)\<rparr>,
            header = decoded (extractHeader (file_bytes datFile)),
            errors =
              (if thrown ''header'' (extractHeader (file_bytes datFile))
                  @ thrown ''enemiesKilled'' (extractKilledEnemies (file_bytes saveFile))
                  @ thrown ''sessionTime'' (extractSessionTime (file_bytes saveFile))
                  @ thrown ''resources'' (extractResources (file_bytes saveFile))
                  @ thrown ''undeadResources'' (extractUndeadResources (file_bytes saveFile))
                  @ thrown ''achievements'' (extractAchievements (file_bytes saveFile)) = []
               then None
               else Some (thrown ''header'' (extractHeader (file_bytes datFile))
                  @ thrown ''enemiesKilled'' (extractKilledEnemies (file_bytes saveFile))
                  @ thrown ''sessionTime'' (extractSessionTime (file_bytes saveFile))
                  @ thrown ''resources'' (extractResources (file_bytes saveFile))
                  @ thrown ''undeadResources'' (extractUndeadResources (file_bytes saveFile))
                  @ thrown ''achievements'' (extractAchievements (file_bytes saveFile))))\<rparr>)"
proof -
  have w: "thrown ''waves'' (Inr (extractWaves (file_bytes saveFile))) = []"
    "decoded (Inr (extractWaves (file_bytes saveFile))) = extractWaves (file_bytes saveFile)"
    by (simp_all add: thrown_def decoded_def)
  show ?thesis
    unfolding parseSaveFiles_def Let_def attempt_decoded prod.case w
    by (cases "Date_toISOString (file_lastModified saveFile)") simp_all
qed

lemma Date_toISOString_valid:
  "\<bar>t\<bar> \<le> 8640000000000000 \<Longrightarrow> \<exists>modified. Date_toISOString t = Inr modified"
  by (simp add: Date_toISOString_def Let_def split: prod.splits)

lemma Date_toISOString_epoch: "Date_toISOString 0 = Inr (js ''1970-01-01T00:00:00.000Z'')"
  by (simp add: Date_toISOString_def civil_from_days_def digits_def padStart_def decimal.simps
      replicate_numeral_Cons js_def Let_def cong: let_weak_cong prod.case_cong_weak)

text \<open>
  A modification time that is not a valid date: \<^verbatim>\<open>parseSaveFiles\<close> throws, whatever the
  decoders did.
\<close>

lemma parseSaveFiles_invalid_date:
  "8640000000000000 < \<bar>file_lastModified saveFile\<bar> \<Longrightarrow>
   parseSaveFiles saveFile datFile = Inl RangeError"
  unfolding parseSaveFiles_eq by (simp add: Date_toISOString_def)

text \<open>
  Claim C4 (as amended). For a save file whose modification time is a valid date,
  \<^verbatim>\<open>parseSaveFiles\<close> returns a result, and it runs every decoder whatever the others do:
  each field of the result is determined by its own decoder alone. The exception of a
  decoder is recorded as an error tagged with the decoder's name, in the order of the
  decoders. The statistics record omits exactly the fields whose decoder returned
  \<^verbatim>\<open>null\<close> or threw. The error list is present only when it is not empty.
\<close>

theorem parseSaveFiles_partial_success:
  assumes "\<bar>file_lastModified saveFile\<bar> \<le> 8640000000000000"
  shows "\<exists>r. parseSaveFiles saveFile datFile = Inr r \<and>
     statistics r =
       \<lparr>enemiesKilled = decoded (extractKilledEnemies (file_bytes saveFile)),
        sessionTime = decoded (extractSessionTime (file_bytes saveFile)),
        resources = decoded (extractResources (file_bytes saveFile)),
        undeadResources = decoded (extractUndeadResources (file_bytes saveFile)),
        achievements = decoded (extractAchievements (file_bytes saveFile)),
        waves = extractWaves (file_bytes saveFile)\<rparr> \<and>
     header r = decoded (extractHeader (file_bytes datFile)) \<and>
     (case errors r of None \<Rightarrow> [] | Some es \<Rightarrow> es) =
       thrown ''header'' (extractHeader (file_bytes datFile))
       @ thrown ''enemiesKilled'' (extractKilledEnemies (file_bytes saveFile))
       @ thrown ''sessionTime'' (extractSessionTime (file_bytes saveFile))
       @ thrown ''resources'' (extractResources (file_bytes saveFile))
       @ thrown ''undeadResources'' (extractUndeadResources (file_bytes saveFile))
       @ thrown ''achievements'' (extractAchievements (file_bytes saveFile)) \<and>
     errors r \<noteq> Some [] \<and>
     (enemiesKilled (statistics r) = None \<longleftrightarrow>
        extractKilledEnemies (file_bytes saveFile) = Inr None \<or>
        (\<exists>e. extractKilledEnemies (file_bytes saveFile) = Inl e)) \<and>
     (sessionTime (statistics r) = None \<longleftrightarrow>
        extractSessionTime (file_bytes saveFile) = Inr None \<or>
        (\<exists>e. extractSessionTime (file_bytes saveFile) = Inl e)) \<and>
     (resources (statistics r) = None \<longleftrightarrow>
        extractResources (file_bytes saveFile) = Inr None \<or>
        (\<exists>e. extractResources (file_bytes saveFile) = Inl e)) \<and>
     (undeadResources (statistics r) = None \<longleftrightarrow>
        extractUndeadResources (file_bytes saveFile) = Inr None \<or>
        (\<exists>e. extractUndeadResources (file_bytes saveFile) = Inl e)) \<and>
     (achievements (statistics r) = None \<longleftrightarrow>
        extractAchievements (file_bytes saveFile) = Inr None \<or>
        (\<exists>e. extractAchievements (file_bytes saveFile) = Inl e)) \<and>
     (waves (statistics r) = None \<longleftrightarrow> extractWaves (file_bytes saveFile) = None)"
proof -
  from assms obtain modified where "Date_toISOString (file_lastModified saveFile) = Inr modified"
    using Date_toISOString_valid by blast
  then show ?thesis
    unfolding parseSaveFiles_eq by (simp add: decoded_None)
qed

lemma no_class:
  "findBytes data (TextEncoder_encode name) 0 = - 1 \<Longrightarrow>
   findClassDefinition data name expectedFields 0 = None"
  by (simp add: findClassDefinition_def findClassDefinition_scan.simps)

lemmas name_eval = TextEncoder_encode_def utf8_encode_cp_def js_def findBytes.simps byteAt_def

lemma buf_kills_session: "extractSessionTime buf_kills = Inr None"
  unfolding extractSessionTime_def
  by (subst no_class) (simp_all add: buf_kills_def buf_kills_head_def name_eval)

lemma buf_kills_resources: "extractResources buf_kills = Inr None"
  unfolding extractResources_def extractDays_def
  by (subst no_class) (simp_all add: buf_kills_def buf_kills_head_def name_eval)

lemma buf_kills_undead: "extractUndeadResources buf_kills = Inr None"
  unfolding extractUndeadResources_def extractDays_def
  by (subst no_class) (simp_all add: buf_kills_def buf_kills_head_def name_eval)

lemma buf_kills_achievements: "extractAchievements buf_kills = Inr None"
  unfolding extractAchievements_def
  by (subst no_class) (simp_all add: buf_kills_def buf_kills_head_def name_eval)

lemma buf_kills_waves: "extractWaves buf_kills = None"
  unfolding extractWaves_def
  by (subst no_class) (simp_all add: buf_kills_def buf_kills_head_def name_eval)

lemma buf_kills_located:
  "findClassDefinition buf_kills (js ''KilledEnemiesCounterSingleton'') [js ''value''] 0 =
     Some \<lparr>className = js ''KilledEnemiesCounterSingleton'', memberCount = 1,
           memberNames = [js ''value''], typeTags = [Some 0], primTypes = [Some 8],
           dataOffset = 51, objectId = 3\<rparr>"
  by (simp add: buf_kills_def buf_kills_head_def parser_eval
      cong: let_weak_cong prod.case_cong_weak)

lemma buf_kills_cut_located:
  "findClassDefinition buf_kills_cut (js ''KilledEnemiesCounterSingleton'') [js ''value''] 0 =
     Some \<lparr>className = js ''KilledEnemiesCounterSingleton'', memberCount = 1,
           memberNames = [js ''value''], typeTags = [Some 0], primTypes = [Some 8],
           dataOffset = 51, objectId = 3\<rparr>"
  by (simp add: buf_kills_cut_def buf_kills_head_def parser_eval
      cong: let_weak_cong prod.case_cong_weak)

lemma buf_kills_result: "extractKilledEnemies buf_kills = Inr (Some 1234)"
  unfolding extractKilledEnemies_def buf_kills_located
  by (simp add: buf_kills_def buf_kills_head_def getInt32_def readLE_def toSigned_def
      TextEncoder_encode_def utf8_encode_cp_def js_def)

lemma buf_kills_cut_result: "extractKilledEnemies buf_kills_cut = Inl RangeError"
  unfolding extractKilledEnemies_def buf_kills_cut_located
  by (simp add: buf_kills_cut_def buf_kills_head_def getInt32_def readLE_def toSigned_def
      TextEncoder_encode_def utf8_encode_cp_def js_def)

lemma buf_header_cut_located:
  "findClassDefinition buf_header_cut (js ''ProfileSaveHeader'') extractHeader_expected 0
     = Some buf_header_cdef"
  by (simp add: buf_header_cut_def buf_header_head_def buf_header_cdef_def
      extractHeader_expected_def parser_eval cong: let_weak_cong prod.case_cong_weak)

lemma buf_header_cut_result: "extractHeader buf_header_cut = Inl RangeError"
  by (simp add: extractHeader_def buf_header_cut_located Let_def)
     (simp add: buf_header_cut_def header_eval)

theorem parseSaveFiles_partial_success_witness:
  "parseSaveFiles (save_file buf_kills) (save_file buf_header_cut) =
     Inr \<lparr>fileName = js ''save'', fileSize = length buf_kills,
          lastModified = js ''1970-01-01T00:00:00.000Z'',
          statistics = \<lparr>enemiesKilled = Some 1234, sessionTime = None, resources = None,
                         undeadResources = None, achievements = None, waves = None\<rparr>,
          header = None,
          errors = Some [(js ''header'', RangeError)]\<rparr>"
proof -
  have b: "file_bytes (save_file buf_kills) = buf_kills"
    "file_bytes (save_file buf_header_cut) = buf_header_cut"
    "file_lastModified (save_file buf_kills) = 0"
    by (simp_all add: save_file_def)
  from parseSaveFiles_partial_success [of "save_file buf_kills" "save_file buf_header_cut"]
  obtain r where r: "parseSaveFiles (save_file buf_kills) (save_file buf_header_cut) = Inr r"
    and "statistics r = \<lparr>enemiesKilled = Some 1234, sessionTime = None, resources = None,
                     undeadResources = None, achievements = None, waves = None\<rparr>"
    and "header r = None"
    and "(case errors r of None \<Rightarrow> [] | Some es \<Rightarrow> es) = [(js ''header'', RangeError)]"
    by (auto simp: b buf_kills_result buf_kills_session buf_kills_resources buf_kills_undead
        buf_kills_achievements buf_kills_waves buf_header_cut_result decoded_def thrown_def)
  moreover from r have "fileName r = js ''save''" "fileSize r = length buf_kills"
    "lastModified r = js ''1970-01-01T00:00:00.000Z''"
    unfolding parseSaveFiles_eq b Date_toISOString_epoch
    by (auto simp: save_file_def)
  ultimately have "r = \<lparr>fileName = js ''save'', fileSize = length buf_kills,
          lastModified = js ''1970-01-01T00:00:00.000Z'',
          statistics = \<lparr>enemiesKilled = Some 1234, sessionTime = None, resources = None,
                         undeadResources = None, achievements = None, waves = None\<rparr>,
          header = None,
          errors = Some [(js ''header'', RangeError)]\<rparr>"
    by (cases r) (auto split: option.splits)
  with r show ?thesis by simp
qed

text \<open>
  The claim as stated fails: on \<open>buf_kills_cut\<close> the kill counter decoder does not
  return \<^verbatim>\<open>null\<close>, it throws a \<^verbatim>\<open>RangeError\<close>, and the field \<^verbatim>\<open>enemiesKilled\<close> is omitted
  from the result all the same.
\<close>

theorem parseSaveFiles_partial_success_counterexample:
  "extractKilledEnemies buf_kills_cut = Inl RangeError \<and>
   extractKilledEnemies buf_kills_cut \<noteq> Inr None \<and>
   map_sum id (\<lambda>r. enemiesKilled (statistics r))
     (parseSaveFiles (save_file buf_kills_cut) (save_file [])) = Inr None"
proof -
  have "file_lastModified (save_file buf_kills_cut) = 0" by (simp add: save_file_def)
  then show ?thesis
    unfolding parseSaveFiles_eq
    by (simp add: Date_toISOString_epoch save_file_def buf_kills_cut_result decoded_def)
qed

end
